theory Spec2Isabelle
  imports
    Main
    "HOL-Library.Multiset"
    "HOL-Library.Sublist"
    "HOL-Library.Char_ord"
    "HOL-Library.List_Lexorder"
begin

section \<open>Data model\<close>

text \<open>
  Source: \<^verbatim>\<open>interface Profile\<close> (the types module, \<^verbatim>\<open>src/unnamed/part_001\<close>).

  A profile occurs in two forms. As JSON (a row of the remote table, a request or
  response body, an entry of the local storage blob) its completed list is a value,
  \<open>ProfileData\<close>. As an object in memory its \<^verbatim>\<open>firstplacechampions\<close> is a
  reference to an array, \<open>ProfileObj\<close>: two objects made by a spread copy share the
  array, and \<^verbatim>\<open>push\<close> and \<^verbatim>\<open>splice\<close> change it for both. Arrays live in
  the \<open>heap\<close>, a list indexed by address. Timestamps are instants, modelled as
  natural numbers; the field \<^verbatim>\<open>id\<close> is named \<open>id'\<close>.
\<close>

type_synonym addr = nat

type_synonym heap = "string list list"

record 'c Profile =
  id' :: string
  name :: string
  firstplacechampions :: 'c
  created_at :: nat
  updated_at :: nat

type_synonym ProfileData = "string list Profile"

type_synonym ProfileObj = "addr Profile"

text \<open>A profile row whose two timestamps coincide, as the store creates it.\<close>

definition profileData :: "string \<Rightarrow> string \<Rightarrow> string list \<Rightarrow> nat \<Rightarrow> ProfileData" where
  "profileData i n cs t =
     \<lparr>id' = i, name = n, firstplacechampions = cs, created_at = t, updated_at = t\<rparr>"

text \<open>Reading a JSON value into a fresh object, and writing an object out as JSON.\<close>

definition parseProfile :: "heap \<Rightarrow> ProfileData \<Rightarrow> heap \<times> ProfileObj" where
  "parseProfile h p =
     (h @ [firstplacechampions p],
      \<lparr>id' = id' p, name = name p, firstplacechampions = length h,
       created_at = created_at p, updated_at = updated_at p\<rparr>)"

fun parseProfiles :: "heap \<Rightarrow> ProfileData list \<Rightarrow> heap \<times> ProfileObj list" where
  "parseProfiles h [] = (h, [])"
| "parseProfiles h (p # ps) =
     (case parseProfile h p of (h1, obj) \<Rightarrow>
        (case parseProfiles h1 ps of (h2, objs) \<Rightarrow> (h2, obj # objs)))"

text \<open>Reading the array behind a reference; a dangling address reads as the empty array.\<close>

definition deref :: "heap \<Rightarrow> addr \<Rightarrow> string list" where
  "deref h a = (if a < length h then h ! a else [])"

definition serialize :: "heap \<Rightarrow> ProfileObj \<Rightarrow> ProfileData" where
  "serialize h obj =
     \<lparr>id' = id' obj, name = name obj, firstplacechampions = deref h (firstplacechampions obj),
      created_at = created_at obj, updated_at = updated_at obj\<rparr>"

text \<open>\<^verbatim>\<open>xs[0] || null\<close> and \<^verbatim>\<open>Array.prototype.findIndex\<close> (\<open>None\<close> for \<open>-1\<close>).\<close>

definition first_or_null :: "'a list \<Rightarrow> 'a option" where
  "first_or_null xs = (case xs of [] \<Rightarrow> None | x # _ \<Rightarrow> Some x)"

fun findIndex :: "('a \<Rightarrow> bool) \<Rightarrow> 'a list \<Rightarrow> nat option" where
  "findIndex P [] = None"
| "findIndex P (x # xs) =
     (if P x then Some 0 else (case findIndex P xs of None \<Rightarrow> None | Some i \<Rightarrow> Some (Suc i)))"

section \<open>Local storage module\<close>

text \<open>
  Source: \<^verbatim>\<open>src/app/lib/storage.ts\<close>. \<^verbatim>\<open>localStorage\<close> maps keys to JSON text.
  The JSON text of a profile array is identified with the array it encodes
  (\<^verbatim>\<open>JSON.parse\<close> after \<^verbatim>\<open>JSON.stringify\<close> gives the array back, and the text of an
  array is never the empty string). The browser environment is an optional storage:
  \<open>None\<close> is the case \<^verbatim>\<open>typeof window === "undefined"\<close>.
\<close>

datatype json = JSON "ProfileData list"

fun JSON_parse :: "json \<Rightarrow> ProfileData list" where
  "JSON_parse (JSON ps) = ps"

definition JSON_stringify :: "ProfileData list \<Rightarrow> json" where
  "JSON_stringify ps = JSON ps"

type_synonym localStorage = "string \<rightharpoonup> json"

definition STORAGE_KEYS_RIOT_ID :: string where
  "STORAGE_KEYS_RIOT_ID = ''arena-god-riot-id''"

definition STORAGE_KEYS_MATCH_CACHE :: string where
  "STORAGE_KEYS_MATCH_CACHE = ''arena-god-match-cache''"

definition STORAGE_KEYS_PROFILES :: string where
  "STORAGE_KEYS_PROFILES = ''arena-god-profiles''"

definition storage_getProfiles :: "localStorage option \<Rightarrow> ProfileData list" where
  "storage_getProfiles window =
     (case window of
        None \<Rightarrow> []
      | Some localStorage \<Rightarrow>
          (case localStorage STORAGE_KEYS_PROFILES of
             None \<Rightarrow> []
           | Some stored \<Rightarrow> JSON_parse stored))"

definition storage_setProfiles :: "ProfileData list \<Rightarrow> localStorage option \<Rightarrow> localStorage option" where
  "storage_setProfiles profiles window =
     (case window of
        None \<Rightarrow> None
      | Some localStorage \<Rightarrow>
          Some (localStorage(STORAGE_KEYS_PROFILES \<mapsto> JSON_stringify profiles)))"

definition storage_getProfile :: "string \<Rightarrow> localStorage option \<Rightarrow> ProfileData option" where
  "storage_getProfile i window = find (\<lambda>p. id' p = i) (storage_getProfiles window)"

definition storage_updateProfile :: "ProfileData \<Rightarrow> localStorage option \<Rightarrow> localStorage option" where
  "storage_updateProfile profile window =
     (let profiles = storage_getProfiles window;
          index = findIndex (\<lambda>p. id' p = id' profile) profiles
      in case index of
           Some i \<Rightarrow> storage_setProfiles (profiles[i := profile]) window
         | None \<Rightarrow> storage_setProfiles (profiles @ [profile]) window)"

definition storage_deleteProfile :: "string \<Rightarrow> localStorage option \<Rightarrow> localStorage option" where
  "storage_deleteProfile i window =
     (let profiles = storage_getProfiles window;
          filtered = filter (\<lambda>p. id' p \<noteq> i) profiles
      in storage_setProfiles filtered window)"

section \<open>Remote store\<close>

text \<open>
  Modelled from the spec: the remote store collaborator and its client (the module
  \<^verbatim>\<open>./supabase\<close> is not under \<^verbatim>\<open>src/\<close>), a table-like store with create, read,
  update and delete. The data layer talks to it through a client whose every request
  resolves to a pair of \<^verbatim>\<open>data\<close> and \<^verbatim>\<open>error\<close>.
  The model of the store is a table of rows in insertion order, a clock that advances
  with every request, a generator of fresh keys, and a schedule of faults: its head says
  whether the next request is answered with an error (an empty schedule means no
  failure). A request that is answered with an error leaves the table as it is.
\<close>

record 'a Response =
  data :: "'a option"
  error :: "string option"

record Remote =
  table :: "ProfileData list"
  clock :: nat
  nextKey :: nat
  faults :: "bool list"

definition key_of :: "nat \<Rightarrow> string" where
  "key_of n = CHR ''p'' # replicate n (CHR ''i'')"

definition request_fails :: "Remote \<Rightarrow> bool" where
  "request_fails r = (case faults r of [] \<Rightarrow> False | f # _ \<Rightarrow> f)"

definition answered :: "Remote \<Rightarrow> Remote" where
  "answered r = r\<lparr>clock := Suc (clock r), faults := tl (faults r)\<rparr>"

definition failure :: "'a Response" where
  "failure = \<lparr>data = None, error = Some ''request failed''\<rparr>"

definition success :: "'a \<Rightarrow> 'a Response" where
  "success x = \<lparr>data = Some x, error = None\<rparr>"

text \<open>\<^verbatim>\<open>from('profiles').select('count').limit(1)\<close>\<close>

definition select_count :: "Remote \<Rightarrow> nat Response \<times> Remote" where
  "select_count r =
     (if request_fails r then (failure, answered r)
      else (success (length (table r)), answered r))"

text \<open>\<^verbatim>\<open>from('profiles').select('*').order('created_at', { ascending: true })\<close>\<close>

definition select_ordered :: "Remote \<Rightarrow> ProfileData list Response \<times> Remote" where
  "select_ordered r =
     (if request_fails r then (failure, answered r)
      else (success (sort_key created_at (table r)), answered r))"

text \<open>
  \<^verbatim>\<open>from('profiles').insert([{ name, firstplacechampions: [] }]).select().single()\<close>:
  the store gives the row its key and its timestamps.
\<close>

definition insert_row :: "string \<Rightarrow> Remote \<Rightarrow> ProfileData Response \<times> Remote" where
  "insert_row nm r =
     (if request_fails r then (failure, answered r)
      else
        (let row = profileData (key_of (nextKey r)) nm [] (clock r)
         in (success row,
             (answered r)\<lparr>table := table r @ [row], nextKey := Suc (nextKey r)\<rparr>)))"

text \<open>
  \<^verbatim>\<open>from('profiles').update({ name, firstplacechampions, updated_at }).eq('id', id).select().single()\<close>:
  every row with the id is changed; \<^verbatim>\<open>single()\<close> answers with an error unless
  exactly one row comes back.
\<close>

definition apply_update :: "string \<Rightarrow> string \<Rightarrow> string list \<Rightarrow> nat \<Rightarrow> ProfileData \<Rightarrow> ProfileData" where
  "apply_update i nm cs ts row =
     (if id' row = i
      then row\<lparr>name := nm, firstplacechampions := cs, updated_at := ts\<rparr>
      else row)"

definition update_rows ::
  "string \<Rightarrow> string \<Rightarrow> string list \<Rightarrow> nat \<Rightarrow> Remote \<Rightarrow> ProfileData Response \<times> Remote"
where
  "update_rows i nm cs ts r =
     (if request_fails r then (failure, answered r)
      else
        (let rows = map (apply_update i nm cs ts) (table r)
         in ((case filter (\<lambda>row. id' row = i) rows of
                [row] \<Rightarrow> success row
              | _ \<Rightarrow> failure),
             (answered r)\<lparr>table := rows\<rparr>)))"

text \<open>\<^verbatim>\<open>from('profiles').delete().eq('id', id)\<close>\<close>

definition delete_rows :: "string \<Rightarrow> Remote \<Rightarrow> unit Response \<times> Remote" where
  "delete_rows i r =
     (if request_fails r then (failure, answered r)
      else (success (), (answered r)\<lparr>table := filter (\<lambda>row. id' row \<noteq> i) (table r)\<rparr>))"

text \<open>Whether the request after the next \<open>k\<close> requests is answered with an error.\<close>

definition fault_at :: "nat \<Rightarrow> Remote \<Rightarrow> bool" where
  "fault_at k r = (k < length (faults r) \<and> faults r ! k)"

section \<open>Data layer\<close>

text \<open>
  Source: the database module (\<^verbatim>\<open>src/unnamed/part_002\<close>, lines 1 to 96). The
  functions return JSON values; the component makes objects of them.
\<close>

definition testConnection :: "Remote \<Rightarrow> bool \<times> Remote" where
  "testConnection r =
     (case select_count r of (resp, r1) \<Rightarrow>
        if error resp \<noteq> None then (False, r1) else (True, r1))"

definition getProfiles :: "Remote \<Rightarrow> ProfileData list \<times> Remote" where
  "getProfiles r =
     (case select_ordered r of (resp, r1) \<Rightarrow>
        if error resp \<noteq> None then ([], r1)
        else (case data resp of None \<Rightarrow> ([], r1) | Some rows \<Rightarrow> (rows, r1)))"

definition createProfile :: "string \<Rightarrow> Remote \<Rightarrow> ProfileData option \<times> Remote" where
  "createProfile nm r =
     (case insert_row nm r of (resp, r1) \<Rightarrow>
        if error resp \<noteq> None then (None, r1) else (data resp, r1))"

definition updateProfile :: "ProfileData \<Rightarrow> Remote \<Rightarrow> ProfileData option \<times> Remote" where
  "updateProfile profile r =
     (case update_rows (id' profile) (name profile) (firstplacechampions profile) (clock r) r of
        (resp, r1) \<Rightarrow> if error resp \<noteq> None then (None, r1) else (data resp, r1))"

definition deleteProfile :: "string \<Rightarrow> Remote \<Rightarrow> bool \<times> Remote" where
  "deleteProfile i r =
     (case delete_rows i r of (resp, r1) \<Rightarrow>
        if error resp \<noteq> None then (False, r1) else (True, r1))"

section \<open>Presentation engine: search filter and sort of the tile grid\<close>

text \<open>
  Source: \<^verbatim>\<open>ImageGrid\<close> (the second component of \<^verbatim>\<open>src/app/components/tabs.tsx\<close>)
  and \<^verbatim>\<open>filteredImages\<close> of \<^verbatim>\<open>src/app/components/profile-manager.tsx\<close>.

  JavaScript strings are modelled as \<^typ>\<open>string\<close>. Three functions of the platform are
  not code of the repository:
  \<^item> \<^verbatim>\<open>String.prototype.localeCompare\<close>, a parameter \<open>localeCompare\<close> of the model
    (negative, zero or positive); \<open>lexCompare\<close> below is the instance that compares
    code units lexicographically;
  \<^item> \<^verbatim>\<open>String.prototype.toLowerCase\<close>, a parameter \<open>toLowerCase\<close>;
    \<open>asciiLower\<close> below is the instance that folds the letters A to Z;
  \<^item> \<^verbatim>\<open>Array.prototype.sort\<close>, which ECMAScript requires to be stable; with a
    consistent comparator the result is the one stable ordering, which the insertion
    sort \<open>array_sort\<close> computes.
\<close>

text \<open>
  Modelled from the spec: \<^verbatim>\<open>ImageTile\<close> (the images module is not under
  \<^verbatim>\<open>src/\<close>), a catalog entry with a display name and an image reference, read as
  \<^verbatim>\<open>image.name\<close> and \<^verbatim>\<open>image.src\<close>.
\<close>

record ImageTile =
  name :: string
  src :: string

datatype SortMode = Completion | Alphabetical

datatype SortDirection = Asc | Desc

type_synonym collation = "string \<Rightarrow> string \<Rightarrow> int"

text \<open>\<^verbatim>\<open>Array.prototype.includes\<close> on an array of strings.\<close>

definition array_includes :: "'a list \<Rightarrow> 'a \<Rightarrow> bool" where
  "array_includes xs x = (x \<in> set xs)"

text \<open>\<^verbatim>\<open>String.prototype.includes\<close>: the argument occurs as a contiguous substring.\<close>

fun string_includes :: "string \<Rightarrow> string \<Rightarrow> bool" where
  "string_includes [] q = (q = [])"
| "string_includes (c # cs) q = (prefix q (c # cs) \<or> string_includes cs q)"

text \<open>Insertion of one element in front of the first element it does not follow.\<close>

fun sort_insert :: "('a \<Rightarrow> 'a \<Rightarrow> int) \<Rightarrow> 'a \<Rightarrow> 'a list \<Rightarrow> 'a list" where
  "sort_insert cmp x [] = [x]"
| "sort_insert cmp x (y # ys) =
     (if cmp x y \<le> 0 then x # y # ys else y # sort_insert cmp x ys)"

definition array_sort :: "('a \<Rightarrow> 'a \<Rightarrow> int) \<Rightarrow> 'a list \<Rightarrow> 'a list" where
  "array_sort cmp xs = foldr (sort_insert cmp) xs []"

text \<open>
  A consistent comparator in the sense of ECMAScript: equal to zero on equal arguments,
  antisymmetric in its sign, and transitive.
\<close>

definition consistent_comparator :: "('a \<Rightarrow> 'a \<Rightarrow> int) \<Rightarrow> bool" where
  "consistent_comparator cmp \<longleftrightarrow>
     (\<forall>a. cmp a a = 0) \<and>
     (\<forall>a b. (cmp a b < 0) = (0 < cmp b a)) \<and>
     (\<forall>a b c. cmp a b \<le> 0 \<longrightarrow> cmp b c \<le> 0 \<longrightarrow> cmp a c \<le> 0)"

text \<open>The comparator passed to \<^verbatim>\<open>sort\<close> in \<^verbatim>\<open>sortedImages\<close> (tabs.tsx, lines 137 to 158).\<close>

definition compareImages ::
  "collation \<Rightarrow> SortMode \<Rightarrow> SortDirection \<Rightarrow> string list \<Rightarrow> ImageTile \<Rightarrow> ImageTile \<Rightarrow> int"
where
  "compareImages localeCompare sortMode sortDirection activeChampions a b =
     (if sortMode = Completion then
        (let aCompleted = array_includes activeChampions (name a);
             bCompleted = array_includes activeChampions (name b)
         in if aCompleted \<noteq> bCompleted then
              (if sortDirection = Asc
               then (if aCompleted then - 1 else 1)
               else (if aCompleted then 1 else - 1))
            else localeCompare (name a) (name b))
      else
        (if sortDirection = Asc
         then localeCompare (name a) (name b)
         else localeCompare (name b) (name a)))"

definition sortedImages ::
  "collation \<Rightarrow> SortMode \<Rightarrow> SortDirection \<Rightarrow> string list \<Rightarrow> ImageTile list \<Rightarrow> ImageTile list"
where
  "sortedImages localeCompare sortMode sortDirection activeChampions displayImages =
     array_sort (compareImages localeCompare sortMode sortDirection activeChampions) displayImages"

text \<open>\<^verbatim>\<open>filteredImages\<close> (profile-manager.tsx, lines 204 to 206).\<close>

definition filteredImages :: "(string \<Rightarrow> string) \<Rightarrow> ImageTile list \<Rightarrow> string \<Rightarrow> ImageTile list" where
  "filteredImages toLowerCase images searchQuery =
     filter (\<lambda>image. string_includes (toLowerCase (name image)) (toLowerCase searchQuery)) images"

text \<open>
  The grid that is rendered: \<^verbatim>\<open>ProfileManager\<close> passes \<^verbatim>\<open>filteredImages\<close> as
  \<^verbatim>\<open>displayImages\<close> and the selected profile's completed list as
  \<^verbatim>\<open>selectedChampions\<close>; \<^verbatim>\<open>ImageGrid\<close> maps over \<^verbatim>\<open>sortedImages\<close>.
\<close>

definition view ::
  "(string \<Rightarrow> string) \<Rightarrow> collation \<Rightarrow> ImageTile list \<Rightarrow> string list \<Rightarrow> string \<Rightarrow>
     SortMode \<Rightarrow> SortDirection \<Rightarrow> ImageTile list"
where
  "view toLowerCase localeCompare images completedSet searchText sortMode sortDirection =
     sortedImages localeCompare sortMode sortDirection completedSet
       (filteredImages toLowerCase images searchText)"

text \<open>Instances of the two platform functions, used to run the model on concrete input.\<close>

definition lexCompare :: collation where
  "lexCompare a b = (if a < b then - 1 else if a = b then 0 else 1)"

definition asciiLowerChar :: "char \<Rightarrow> char" where
  "asciiLowerChar c =
     (if 65 \<le> (of_char c :: nat) \<and> (of_char c :: nat) \<le> 90
      then char_of (of_char c + (32 :: nat)) else c)"

definition asciiLower :: "string \<Rightarrow> string" where
  "asciiLower s = map asciiLowerChar s"

text \<open>
  Two readings of the completion comparator used in the proofs: the partition that the
  sort direction puts first, and the comparison by name alone.
\<close>

definition comesFirst :: "SortDirection \<Rightarrow> string list \<Rightarrow> ImageTile \<Rightarrow> bool" where
  "comesFirst sortDirection activeChampions tile =
     (array_includes activeChampions (name tile) = (sortDirection = Asc))"

definition byName :: "collation \<Rightarrow> ImageTile \<Rightarrow> ImageTile \<Rightarrow> int" where
  "byName localeCompare a b = localeCompare (name a) (name b)"
section \<open>Profile manager component\<close>

text \<open>
  Source: \<^verbatim>\<open>ProfileManager\<close> (\<^verbatim>\<open>src/app/components/profile-manager.tsx\<close>). The
  component state is the record \<open>State\<close>; the \<open>World\<close> adds what the handlers act
  on: the remote store, the browser's local storage, and the heap of arrays. A handler
  is run from its first line to its last, with no other handler running between its
  requests; it reads the state variables of the render that made it and sets new
  values. Whitespace for \<^verbatim>\<open>trim\<close> is the set of
  single-byte white space and line terminator characters.
\<close>

record State =
  profiles :: "ProfileObj list"
  selectedProfile :: "ProfileObj option"
  editingProfile :: "ProfileObj option"
  showAddForm :: bool
  newProfileName :: string
  searchQuery :: string
  loading :: bool
  connectionStatus :: string
  showDeleteConfirm :: "string option"

record World =
  remote :: Remote
  window :: "localStorage option"
  heap :: heap
  state :: State

definition initialState :: State where
  "initialState =
     \<lparr>profiles = [], selectedProfile = None, editingProfile = None, showAddForm = False,
      newProfileName = [], searchQuery = [], loading = True,
      connectionStatus = ''Testing...'', showDeleteConfirm = None\<rparr>"

definition isWhiteSpace :: "char \<Rightarrow> bool" where
  "isWhiteSpace c = ((of_char c :: nat) \<in> {9, 10, 11, 12, 13, 32, 160})"

definition trim :: "string \<Rightarrow> string" where
  "trim s = rev (dropWhile isWhiteSpace (rev (dropWhile isWhiteSpace s)))"

text \<open>\<^verbatim>\<open>[a, b].filter(Boolean)\<close> on results that are a profile or null.\<close>

fun filter_Boolean :: "'a option list \<Rightarrow> 'a list" where
  "filter_Boolean [] = []"
| "filter_Boolean (None # xs) = filter_Boolean xs"
| "filter_Boolean (Some x # xs) = x # filter_Boolean xs"

text \<open>\<^verbatim>\<open>loadProfiles\<close>, lines 69 to 100.\<close>

definition loadProfiles :: "World \<Rightarrow> World" where
  "loadProfiles w =
     (let s0 = (state w)\<lparr>loading := True\<rparr> in
      case getProfiles (remote w) of (rows, r1) \<Rightarrow>
      case parseProfiles (heap w) rows of (h1, storedProfiles) \<Rightarrow>
        if length storedProfiles = 0 then
          (case createProfile ''Me'' r1 of (c1, r2) \<Rightarrow>
           case createProfile ''My Friend'' r2 of (c2, r3) \<Rightarrow>
           case parseProfiles h1 (filter_Boolean [c1, c2]) of (h2, defaultProfiles) \<Rightarrow>
             w\<lparr>remote := r3, heap := h2,
               state := s0\<lparr>profiles := defaultProfiles,
                           selectedProfile := first_or_null defaultProfiles,
                           loading := False\<rparr>\<rparr>)
        else
          w\<lparr>remote := r1, heap := h1,
            state := s0\<lparr>profiles := storedProfiles,
                        selectedProfile := first_or_null storedProfiles,
                        loading := False\<rparr>\<rparr>)"

text \<open>The mount effect, lines 31 to 42: the connection test and what follows it.\<close>

definition mountEffect :: "World \<Rightarrow> World" where
  "mountEffect w =
     (case testConnection (remote w) of (isConnected, r1) \<Rightarrow>
        if isConnected then
          loadProfiles (w\<lparr>remote := r1, state := (state w)\<lparr>connectionStatus := ''Connected''\<rparr>\<rparr>)
        else
          w\<lparr>remote := r1,
            state := (state w)\<lparr>connectionStatus := ''Connection failed'', loading := False\<rparr>\<rparr>)"

text \<open>
  The callback given to \<^verbatim>\<open>subscribeToProfiles\<close>, lines 46 to 61. The effect runs
  once, so the callback reads the \<^verbatim>\<open>selectedProfile\<close> of the render that made it,
  here the parameter \<open>captured\<close>.
\<close>

definition subscriptionCallback :: "ProfileObj option \<Rightarrow> ProfileObj list \<Rightarrow> State \<Rightarrow> State" where
  "subscriptionCallback captured updatedProfiles s =
     (let s1 = s\<lparr>profiles := updatedProfiles\<rparr> in
      case captured of
        Some sel \<Rightarrow>
          (case find (\<lambda>p. id' p = id' sel) updatedProfiles of
             Some updated \<Rightarrow> s1\<lparr>selectedProfile := Some updated\<rparr>
           | None \<Rightarrow> s1\<lparr>selectedProfile := first_or_null updatedProfiles\<rparr>)
      | None \<Rightarrow>
          if length updatedProfiles > 0
          then s1\<lparr>selectedProfile := first_or_null updatedProfiles\<rparr>
          else s1)"

text \<open>One processed change notification: the re-fetch and the callback of the first render.\<close>

definition processUpdate :: "World \<Rightarrow> World" where
  "processUpdate w =
     (case getProfiles (remote w) of (rows, r1) \<Rightarrow>
      case parseProfiles (heap w) rows of (h1, updatedProfiles) \<Rightarrow>
        w\<lparr>remote := r1, heap := h1,
          state := subscriptionCallback (selectedProfile initialState) updatedProfiles (state w)\<rparr>)"

text \<open>\<^verbatim>\<open>handleAddProfile\<close>, lines 102 to 126.\<close>

definition handleAddProfile :: "World \<Rightarrow> World" where
  "handleAddProfile w =
     (if trim (newProfileName (state w)) = [] then w
      else
        (case createProfile (trim (newProfileName (state w))) (remote w) of
           (None, r1) \<Rightarrow> w\<lparr>remote := r1\<rparr>
         | (Some row, r1) \<Rightarrow>
             (case parseProfile (heap w) row of (h1, newProfile) \<Rightarrow>
              case getProfiles r1 of (rows, r2) \<Rightarrow>
              case parseProfiles h1 rows of (h2, updatedProfiles) \<Rightarrow>
                w\<lparr>remote := r2, heap := h2,
                  state := (state w)\<lparr>newProfileName := [], showAddForm := False,
                                     profiles := updatedProfiles,
                                     selectedProfile := Some newProfile\<rparr>\<rparr>)))"

text \<open>\<^verbatim>\<open>handleUpdateProfile\<close>, lines 132 to 155.\<close>

definition handleUpdateProfile :: "ProfileObj \<Rightarrow> World \<Rightarrow> World" where
  "handleUpdateProfile profile w =
     (case updateProfile (serialize (heap w) profile) (remote w) of
        (None, r1) \<Rightarrow> w\<lparr>remote := r1\<rparr>
      | (Some updated, r1) \<Rightarrow>
          (case getProfiles r1 of (rows, r2) \<Rightarrow>
           case parseProfiles (heap w) rows of (h1, updatedProfiles) \<Rightarrow>
             (let s1 = (state w)\<lparr>editingProfile := None, profiles := updatedProfiles\<rparr> in
              w\<lparr>remote := r2, heap := h1,
                state := (case find (\<lambda>p. id' p = id' profile) updatedProfiles of
                            Some updatedSelected \<Rightarrow> s1\<lparr>selectedProfile := Some updatedSelected\<rparr>
                          | None \<Rightarrow> s1)\<rparr>)))"

text \<open>\<^verbatim>\<open>handleDeleteProfile\<close>, lines 157 to 182.\<close>

definition handleDeleteProfile :: "string \<Rightarrow> World \<Rightarrow> World" where
  "handleDeleteProfile i w =
     (if length (profiles (state w)) \<le> 1 then w
      else
        (case deleteProfile i (remote w) of
           (False, r1) \<Rightarrow> w\<lparr>remote := r1\<rparr>
         | (True, r1) \<Rightarrow>
             (case getProfiles r1 of (rows, r2) \<Rightarrow>
              case parseProfiles (heap w) rows of (h1, updatedProfiles) \<Rightarrow>
                (let s1 = (state w)\<lparr>profiles := updatedProfiles\<rparr> in
                 w\<lparr>remote := r2, heap := h1,
                   state := (if (case selectedProfile (state w) of
                                   None \<Rightarrow> False | Some sel \<Rightarrow> id' sel = i)
                             then s1\<lparr>selectedProfile := first_or_null updatedProfiles\<rparr>
                             else s1)\<rparr>))))"

text \<open>
  \<^verbatim>\<open>toggleChampionWin\<close>, lines 184 to 201. The spread copy is a new object with the
  fields of the selected profile, so its \<^verbatim>\<open>firstplacechampions\<close> is the same
  array; \<^verbatim>\<open>splice\<close> and \<^verbatim>\<open>push\<close> write to that array in the heap. The change
  of the array's elements is \<open>toggleChampion\<close>.
\<close>

definition toggleChampion :: "string \<Rightarrow> string list \<Rightarrow> string list" where
  "toggleChampion champion arr =
     (case findIndex (\<lambda>c. c = champion) arr of
        Some index \<Rightarrow> take index arr @ drop (index + 1) arr
      | None \<Rightarrow> arr @ [champion])"

definition toggleChampionWin :: "string \<Rightarrow> World \<Rightarrow> World" where
  "toggleChampionWin champion w =
     (case selectedProfile (state w) of
        None \<Rightarrow> w
      | Some selected \<Rightarrow>
          (let updatedProfile = selected;
               a = firstplacechampions updatedProfile
           in handleUpdateProfile updatedProfile
                (w\<lparr>heap := (heap w)[a := toggleChampion champion (deref (heap w) a)]\<rparr>)))"

text \<open>
  What the grid receives as \<^verbatim>\<open>selectedChampions\<close>: the array of the selected profile
  (lines 379 to 386; no grid is rendered without a selected profile).
\<close>

definition selectedChampions :: "World \<Rightarrow> string list" where
  "selectedChampions w =
     (case selectedProfile (state w) of
        None \<Rightarrow> []
      | Some sel \<Rightarrow> deref (heap w) (firstplacechampions sel))"

text \<open>The remaining interactions of the rendered markup, lines 223 to 388.\<close>

definition selectProfile :: "nat \<Rightarrow> World \<Rightarrow> World" where
  "selectProfile k w =
     (if k < length (profiles (state w))
      then w\<lparr>state := (state w)\<lparr>selectedProfile := Some (profiles (state w) ! k)\<rparr>\<rparr>
      else w)"

definition typeProfileName :: "string \<Rightarrow> World \<Rightarrow> World" where
  "typeProfileName v w = w\<lparr>state := (state w)\<lparr>newProfileName := v\<rparr>\<rparr>"

definition startEditing :: "World \<Rightarrow> World" where
  "startEditing w = w\<lparr>state := (state w)\<lparr>editingProfile := selectedProfile (state w)\<rparr>\<rparr>"

definition typeEditedName :: "string \<Rightarrow> World \<Rightarrow> World" where
  "typeEditedName v w =
     (case editingProfile (state w) of
        None \<Rightarrow> w
      | Some e \<Rightarrow> w\<lparr>state := (state w)\<lparr>editingProfile := Some (e\<lparr>Profile.name := v\<rparr>)\<rparr>\<rparr>)"

definition saveEditing :: "World \<Rightarrow> World" where
  "saveEditing w =
     (case editingProfile (state w) of
        None \<Rightarrow> w
      | Some e \<Rightarrow> handleUpdateProfile e w)"

definition requestDelete :: "World \<Rightarrow> World" where
  "requestDelete w =
     (case selectedProfile (state w) of
        None \<Rightarrow> w
      | Some sel \<Rightarrow>
          if length (profiles (state w)) > 1
          then w\<lparr>state := (state w)\<lparr>showDeleteConfirm := Some (id' sel)\<rparr>\<rparr>
          else w)"

definition confirmDelete :: "World \<Rightarrow> World" where
  "confirmDelete w =
     (case showDeleteConfirm (state w) of
        None \<Rightarrow> w
      | Some i \<Rightarrow>
          (let w1 = handleDeleteProfile i w
           in w1\<lparr>state := (state w1)\<lparr>showDeleteConfirm := None\<rparr>\<rparr>))"

text \<open>
  The operations of one session, and a run of them in which each operation is completed
  before the next one starts. The program also admits runs in which an operation
  starts while another waits for a response; those are not runs of this function.
\<close>

datatype Action =
    Load
  | Add string
  | Select nat
  | Rename string
  | Delete string
  | Toggle string
  | Notified

fun step :: "Action \<Rightarrow> World \<Rightarrow> World" where
  "step Load w = loadProfiles w"
| "step (Add nm) w = handleAddProfile (typeProfileName nm w)"
| "step (Select k) w = selectProfile k w"
| "step (Rename nm) w = saveEditing (typeEditedName nm (startEditing w))"
| "step (Delete i) w = handleDeleteProfile i w"
| "step (Toggle champion) w = toggleChampionWin champion w"
| "step Notified w = processUpdate w"

fun run :: "Action list \<Rightarrow> World \<Rightarrow> World" where
  "run [] w = w"
| "run (a # as) w = run as (step a w)"

text \<open>
  The rows that \<^verbatim>\<open>loadProfiles\<close> creates when the fetched collection is empty: one for
  each of the two insert requests that is not answered with an error.
\<close>

definition defaultRows :: "Remote \<Rightarrow> ProfileData list" where
  "defaultRows r =
     (if fault_at 1 r then [] else [profileData (key_of (nextKey r)) ''Me'' [] (Suc (clock r))]) @
     (if fault_at 2 r then []
      else [profileData (key_of (if fault_at 1 r then nextKey r else Suc (nextKey r)))
              ''My Friend'' [] (Suc (Suc (clock r)))])"

text \<open>A world before the mount effect, with a given table and fault schedule.\<close>

definition worldWith :: "ProfileData list \<Rightarrow> bool list \<Rightarrow> World" where
  "worldWith rows fs =
     \<lparr>remote = \<lparr>table = rows, clock = 10, nextKey = 0, faults = fs\<rparr>,
      window = None, heap = [], state = initialState\<rparr>"

text \<open>
  A session in step with the store at the moment a handler starts: no request will
  fail, the shown profiles are those of the table in the order of the fetch, the ids of
  the table are distinct and none of them is a key that the store has yet to give out,
  and the table is not empty.
\<close>

definition in_sync :: "World \<Rightarrow> bool" where
  "in_sync w \<longleftrightarrow>
     faults (remote w) = [] \<and>
     map id' (profiles (state w)) = map id' (sort_key created_at (table (remote w))) \<and>
     distinct (map id' (table (remote w))) \<and>
     (\<forall>row \<in> set (table (remote w)). \<forall>n \<ge> nextKey (remote w). id' row \<noteq> key_of n) \<and>
     table (remote w) \<noteq> []"

section \<open>Subscription to change notifications\<close>

text \<open>
  Source: \<^verbatim>\<open>subscribeToProfiles\<close> (\<^verbatim>\<open>src/unnamed/part_002\<close>, lines 160 to 222).
  The program is single threaded: \<^verbatim>\<open>processUpdate\<close> runs up to its
  \<^verbatim>\<open>await\<close> when a notification is handled, and resumes when the fetch settles.
  The model is a step function over the events of the event loop. Modelled from the
  spec: the change-notification stream of the remote store (the realtime channel of the
  client, not under \<^verbatim>\<open>src/\<close>), which calls the handlers for every insert, update
  and delete while joined, and no more after \<^verbatim>\<open>unsubscribe()\<close>.
  The record holds the closure variable \<^verbatim>\<open>isProcessing\<close>, the number of calls of
  \<^verbatim>\<open>getProfiles\<close> that have not settled, whether the channel is joined, the
  arguments of the callback invocations in order, and how many of them happened after
  \<^verbatim>\<open>unsubscribe()\<close>.
\<close>

record Subscription =
  isProcessing :: bool
  inFlight :: nat
  joined :: bool
  invocations :: "ProfileData list list"
  invokedAfterUnsubscribe :: nat

datatype Event =
    ChangeNotification
  | FetchResolved "ProfileData list"
  | FetchRejected
  | Unsubscribe

definition subscribeToProfiles :: Subscription where
  "subscribeToProfiles =
     \<lparr>isProcessing = False, inFlight = 0, joined = True, invocations = [],
      invokedAfterUnsubscribe = 0\<rparr>"

text \<open>\<^verbatim>\<open>processUpdate\<close> from its first line to the \<^verbatim>\<open>await\<close>.\<close>

definition processUpdate_call :: "Subscription \<Rightarrow> Subscription" where
  "processUpdate_call s =
     (if isProcessing s then s
      else s\<lparr>isProcessing := True, inFlight := Suc (inFlight s)\<rparr>)"

text \<open>\<^verbatim>\<open>processUpdate\<close> after the \<^verbatim>\<open>await\<close>: the callback, then \<^verbatim>\<open>finally\<close>.\<close>

definition processUpdate_resume :: "ProfileData list option \<Rightarrow> Subscription \<Rightarrow> Subscription" where
  "processUpdate_resume settled s =
     (let s1 = (case settled of
                  Some fetched \<Rightarrow>
                    s\<lparr>invocations := invocations s @ [fetched],
                      invokedAfterUnsubscribe :=
                        (if joined s then invokedAfterUnsubscribe s
                         else Suc (invokedAfterUnsubscribe s))\<rparr>
                | None \<Rightarrow> s)
      in s1\<lparr>isProcessing := False, inFlight := inFlight s - 1\<rparr>)"

fun deliver :: "Event \<Rightarrow> Subscription \<Rightarrow> Subscription" where
  "deliver ChangeNotification s = (if joined s then processUpdate_call s else s)"
| "deliver (FetchResolved fetched) s =
     (if inFlight s = 0 then s else processUpdate_resume (Some fetched) s)"
| "deliver FetchRejected s =
     (if inFlight s = 0 then s else processUpdate_resume None s)"
| "deliver Unsubscribe s = s\<lparr>joined := False\<rparr>"

fun deliver_all :: "Event list \<Rightarrow> Subscription \<Rightarrow> Subscription" where
  "deliver_all [] s = s"
| "deliver_all (e # es) s = deliver_all es (deliver e s)"

text \<open>
  Two invariants of the event loop: the flag is set exactly while one fetch has not
  settled; and invocations after \<^verbatim>\<open>unsubscribe()\<close> together with unsettled fetches
  number at most one.
\<close>

definition guarded :: "Subscription \<Rightarrow> bool" where
  "guarded s \<longleftrightarrow> inFlight s = (if isProcessing s then 1 else 0)"

definition after_unsubscribe_ok :: "Subscription \<Rightarrow> bool" where
  "after_unsubscribe_ok s \<longleftrightarrow>
     guarded s \<and>
     (if joined s then invokedAfterUnsubscribe s = 0
      else invokedAfterUnsubscribe s + inFlight s \<le> 1)"


section \<open>Properties of the presentation engine\<close>


lemma mset_sort_insert: "mset (sort_insert cmp x ys) = add_mset x (mset ys)"
  by (induction ys) auto

lemma mset_array_sort: "mset (array_sort cmp xs) = mset xs"
  by (induction xs) (auto simp: array_sort_def mset_sort_insert)

lemma set_array_sort: "set (array_sort cmp xs) = set xs"
  using mset_array_sort [of cmp xs] by (metis set_mset_mset)

lemma array_sort_Cons: "array_sort cmp (x # xs) = sort_insert cmp x (array_sort cmp xs)"
  by (simp add: array_sort_def)

lemma array_sort_Nil: "array_sort cmp [] = []"
  by (simp add: array_sort_def)

text \<open>Sortedness of the insertion sort under a total, transitive comparator.\<close>

lemma set_sort_insert: "set (sort_insert cmp x ys) = insert x (set ys)"
  by (induction ys) auto

lemma sorted_sort_insert:
  assumes total: "\<And>a b. cmp a b \<le> 0 \<or> cmp b a \<le> 0"
    and trans: "\<And>a b c. cmp a b \<le> 0 \<Longrightarrow> cmp b c \<le> 0 \<Longrightarrow> cmp a c \<le> 0"
    and srt: "sorted_wrt (\<lambda>a b. cmp a b \<le> 0) ys"
  shows "sorted_wrt (\<lambda>a b. cmp a b \<le> 0) (sort_insert cmp x ys)"
  using srt
proof (induction ys)
  case Nil
  then show ?case by simp
next
  case (Cons y ys)
  show ?case
  proof (cases "cmp x y \<le> 0")
    case True
    with Cons.prems trans show ?thesis by auto
  next
    case False
    with total have "cmp y x \<le> 0" by blast
    with False Cons show ?thesis by (auto simp: set_sort_insert)
  qed
qed

lemma sorted_array_sort:
  assumes total: "\<And>a b. cmp a b \<le> 0 \<or> cmp b a \<le> 0"
    and trans: "\<And>a b c. cmp a b \<le> 0 \<Longrightarrow> cmp b c \<le> 0 \<Longrightarrow> cmp a c \<le> 0"
  shows "sorted_wrt (\<lambda>a b. cmp a b \<le> 0) (array_sort cmp xs)"
proof (induction xs)
  case Nil
  show ?case by (simp add: array_sort_Nil)
next
  case (Cons x xs)
  from sorted_sort_insert [of cmp, OF total trans Cons.IH]
  show ?case by (simp add: array_sort_Cons)
qed

lemma consistent_total: "consistent_comparator cmp \<Longrightarrow> cmp a b \<le> 0 \<or> cmp b a \<le> 0"
  unfolding consistent_comparator_def by (metis linorder_not_less order_less_imp_le)

lemma consistent_trans:
  "consistent_comparator cmp \<Longrightarrow> cmp a b \<le> 0 \<Longrightarrow> cmp b c \<le> 0 \<Longrightarrow> cmp a c \<le> 0"
  unfolding consistent_comparator_def by blast

lemma consistent_lexCompare: "consistent_comparator lexCompare"
  unfolding consistent_comparator_def lexCompare_def by (auto split: if_splits)

lemma compare_completion:
  "compareImages lc Completion dir act a b =
     (if comesFirst dir act a \<noteq> comesFirst dir act b
      then (if comesFirst dir act a then - 1 else 1)
      else byName lc a b)"
  by (cases dir) (auto simp: compareImages_def comesFirst_def byName_def Let_def)

lemma insert_same_group:
  "\<forall>b \<in> set ys. comesFirst dir act b = comesFirst dir act x \<Longrightarrow>
   sort_insert (compareImages lc Completion dir act) x ys = sort_insert (byName lc) x ys"
  by (induction ys) (auto simp: compare_completion)

lemma insert_first_group:
  "comesFirst dir act x \<Longrightarrow> \<forall>a \<in> set as. comesFirst dir act a \<Longrightarrow>
   \<forall>b \<in> set bs. \<not> comesFirst dir act b \<Longrightarrow>
   sort_insert (compareImages lc Completion dir act) x (as @ bs) = sort_insert (byName lc) x as @ bs"
proof (induction as)
  case Nil
  then show ?case by (cases bs) (auto simp: compare_completion)
next
  case (Cons a as)
  then show ?case by (auto simp: compare_completion)
qed

lemma insert_second_group:
  "\<not> comesFirst dir act x \<Longrightarrow> \<forall>a \<in> set as. comesFirst dir act a \<Longrightarrow>
   \<forall>b \<in> set bs. \<not> comesFirst dir act b \<Longrightarrow>
   sort_insert (compareImages lc Completion dir act) x (as @ bs) = as @ sort_insert (byName lc) x bs"
proof (induction as)
  case Nil
  then show ?case using insert_same_group [of bs dir act x lc] by simp
next
  case (Cons a as)
  then show ?case by (auto simp: compare_completion)
qed

lemma completion_sort_split:
  "array_sort (compareImages lc Completion dir act) xs =
     array_sort (byName lc) (filter (comesFirst dir act) xs) @
     array_sort (byName lc) (filter (\<lambda>i. \<not> comesFirst dir act i) xs)"
proof (induction xs)
  case Nil
  show ?case by (simp add: array_sort_Nil)
next
  case (Cons x xs)
  let ?as = "array_sort (byName lc) (filter (comesFirst dir act) xs)"
  let ?bs = "array_sort (byName lc) (filter (\<lambda>i. \<not> comesFirst dir act i) xs)"
  have as: "\<forall>a \<in> set ?as. comesFirst dir act a" by (simp add: set_array_sort)
  have bs: "\<forall>b \<in> set ?bs. \<not> comesFirst dir act b" by (simp add: set_array_sort)
  show ?case
  proof (cases "comesFirst dir act x")
    case True
    with insert_first_group [OF True as bs, of lc] Cons.IH show ?thesis
      by (simp add: array_sort_Cons)
  next
    case False
    with insert_second_group [OF False as bs, of lc] Cons.IH show ?thesis
      by (simp add: array_sort_Cons)
  qed
qed


lemma sorted_byName:
  assumes "consistent_comparator lc"
  shows "sorted_wrt (\<lambda>a b. lc (name a) (name b) \<le> 0) (array_sort (byName lc) xs)"
proof -
  have total: "\<And>a b. byName lc a b \<le> 0 \<or> byName lc b a \<le> 0"
    using consistent_total [OF assms] by (simp add: byName_def)
  have trans: "\<And>a b c. byName lc a b \<le> 0 \<Longrightarrow> byName lc b c \<le> 0 \<Longrightarrow> byName lc a c \<le> 0"
    using consistent_trans [OF assms] unfolding byName_def by blast
  from sorted_array_sort [of "byName lc", OF total trans]
  show ?thesis by (simp add: byName_def)
qed

lemma filter_append_split:
  "\<forall>a \<in> set as. P a \<Longrightarrow> \<forall>b \<in> set bs. \<not> P b \<Longrightarrow>
   filter P (as @ bs) = as \<and> filter (\<lambda>i. \<not> P i) (as @ bs) = bs"
  by (simp add: filter_id_conv filter_empty_conv)

text \<open>
  Claim C1. In completion mode the output is a rearrangement of the items in which the
  completed items (membership of the name in the completed list) and the other items
  form two contiguous parts, the completed part first when the direction is ascending
  and last when it is descending, and each part is ascending by name under the collation
  whatever the direction. On Scenario A (Ahri, Zed, Lux with Zed completed, ascending)
  the order is Zed, Ahri, Lux.
\<close>

theorem completion_sort_order:
  assumes "consistent_comparator localeCompare"
  shows
    "(let out = sortedImages localeCompare Completion sortDirection completed items;
          isCompleted = (\<lambda>i. array_includes completed (name i));
          completedPart = filter isCompleted out;
          otherPart = filter (\<lambda>i. \<not> isCompleted i) out
      in mset out = mset items \<and>
         out = (if sortDirection = Asc then completedPart @ otherPart
                else otherPart @ completedPart) \<and>
         sorted_wrt (\<lambda>a b. localeCompare (name a) (name b) \<le> 0) completedPart \<and>
         sorted_wrt (\<lambda>a b. localeCompare (name a) (name b) \<le> 0) otherPart) \<and>
     sortedImages lexCompare Completion Asc [''Zed'']
       [\<lparr>name = ''Ahri'', src = s1\<rparr>, \<lparr>name = ''Zed'', src = s2\<rparr>, \<lparr>name = ''Lux'', src = s3\<rparr>] =
       [\<lparr>name = ''Zed'', src = s2\<rparr>, \<lparr>name = ''Ahri'', src = s1\<rparr>, \<lparr>name = ''Lux'', src = s3\<rparr>]"
proof -
  let ?first = "comesFirst sortDirection completed"
  let ?as = "array_sort (byName localeCompare) (filter ?first items)"
  let ?bs = "array_sort (byName localeCompare) (filter (\<lambda>i. \<not> ?first i) items)"
  let ?out = "sortedImages localeCompare Completion sortDirection completed items"
  let ?isC = "\<lambda>i. array_includes completed (name i)"
  have out: "?out = ?as @ ?bs"
    by (simp add: sortedImages_def completion_sort_split)
  have as: "\<forall>a \<in> set ?as. ?first a" by (simp add: set_array_sort)
  have bs: "\<forall>b \<in> set ?bs. \<not> ?first b" by (simp add: set_array_sort)
  have parts: "filter ?first ?out = ?as \<and> filter (\<lambda>i. \<not> ?first i) ?out = ?bs"
    unfolding out by (rule filter_append_split [OF as bs])
  have sa: "sorted_wrt (\<lambda>a b. localeCompare (name a) (name b) \<le> 0) ?as"
    by (rule sorted_byName [OF assms])
  have sb: "sorted_wrt (\<lambda>a b. localeCompare (name a) (name b) \<le> 0) ?bs"
    by (rule sorted_byName [OF assms])
  have perm: "mset ?out = mset items"
    by (simp add: sortedImages_def mset_array_sort)
  have general:
    "mset ?out = mset items \<and>
     ?out = (if sortDirection = Asc then filter ?isC ?out @ filter (\<lambda>i. \<not> ?isC i) ?out
             else filter (\<lambda>i. \<not> ?isC i) ?out @ filter ?isC ?out) \<and>
     sorted_wrt (\<lambda>a b. localeCompare (name a) (name b) \<le> 0) (filter ?isC ?out) \<and>
     sorted_wrt (\<lambda>a b. localeCompare (name a) (name b) \<le> 0) (filter (\<lambda>i. \<not> ?isC i) ?out)"
  proof (cases sortDirection)
    case Asc
    then have "?first = ?isC" by (simp add: comesFirst_def fun_eq_iff)
    with parts have "filter ?isC ?out = ?as" "filter (\<lambda>i. \<not> ?isC i) ?out = ?bs"
      by simp_all
    with out perm sa sb Asc show ?thesis by simp
  next
    case Desc
    then have "?first = (\<lambda>i. \<not> ?isC i)" by (simp add: comesFirst_def fun_eq_iff)
    with parts have "filter (\<lambda>i. \<not> ?isC i) ?out = ?as" "filter ?isC ?out = ?bs"
      by simp_all
    with out perm sa sb Desc show ?thesis by simp
  qed
  have scenario:
    "sortedImages lexCompare Completion Asc [''Zed'']
       [\<lparr>name = ''Ahri'', src = s1\<rparr>, \<lparr>name = ''Zed'', src = s2\<rparr>, \<lparr>name = ''Lux'', src = s3\<rparr>] =
       [\<lparr>name = ''Zed'', src = s2\<rparr>, \<lparr>name = ''Ahri'', src = s1\<rparr>, \<lparr>name = ''Lux'', src = s3\<rparr>]"
    by (simp add: sortedImages_def array_sort_def compareImages_def array_includes_def
        lexCompare_def)
  from general scenario show ?thesis by (simp add: Let_def)
qed

theorem completion_sort_order_witness:
  "consistent_comparator lexCompare \<and>
   sortedImages lexCompare Completion Desc [''Zed'']
     [\<lparr>name = ''Lux'', src = ''l''\<rparr>, \<lparr>name = ''Zed'', src = ''z''\<rparr>, \<lparr>name = ''Ahri'', src = ''a''\<rparr>] =
     [\<lparr>name = ''Ahri'', src = ''a''\<rparr>, \<lparr>name = ''Lux'', src = ''l''\<rparr>, \<lparr>name = ''Zed'', src = ''z''\<rparr>] \<and>
   sorted_wrt (\<lambda>a b. lexCompare (name a) (name b) \<le> 0)
     (filter (\<lambda>i. \<not> array_includes [''Zed''] (name i))
       (sortedImages lexCompare Completion Desc [''Zed'']
         [\<lparr>name = ''Lux'', src = ''l''\<rparr>, \<lparr>name = ''Zed'', src = ''z''\<rparr>, \<lparr>name = ''Ahri'', src = ''a''\<rparr>]))"
proof -
  have c: "consistent_comparator lexCompare" by (rule consistent_lexCompare)
  have run: "sortedImages lexCompare Completion Desc [''Zed'']
     [\<lparr>name = ''Lux'', src = ''l''\<rparr>, \<lparr>name = ''Zed'', src = ''z''\<rparr>, \<lparr>name = ''Ahri'', src = ''a''\<rparr>] =
     [\<lparr>name = ''Ahri'', src = ''a''\<rparr>, \<lparr>name = ''Lux'', src = ''l''\<rparr>, \<lparr>name = ''Zed'', src = ''z''\<rparr>]"
    by (simp add: sortedImages_def array_sort_def compareImages_def array_includes_def
        lexCompare_def)
  from completion_sort_order [OF c, of Desc "[''Zed'']"
      "[\<lparr>name = ''Lux'', src = ''l''\<rparr>, \<lparr>name = ''Zed'', src = ''z''\<rparr>, \<lparr>name = ''Ahri'', src = ''a''\<rparr>]"]
  have "sorted_wrt (\<lambda>a b. lexCompare (name a) (name b) \<le> 0)
     (filter (\<lambda>i. \<not> array_includes [''Zed''] (name i))
       (sortedImages lexCompare Completion Desc [''Zed'']
         [\<lparr>name = ''Lux'', src = ''l''\<rparr>, \<lparr>name = ''Zed'', src = ''z''\<rparr>, \<lparr>name = ''Ahri'', src = ''a''\<rparr>]))"
    by (simp add: Let_def)
  with c run show ?thesis by simp
qed


lemma string_includes_iff: "string_includes s q \<longleftrightarrow> (\<exists>pre post. s = pre @ q @ post)"
proof (induction s)
  case Nil
  then show ?case by auto
next
  case (Cons c cs)
  show ?case
  proof
    assume "string_includes (c # cs) q"
    then consider "prefix q (c # cs)" | "string_includes cs q" by auto
    then show "\<exists>pre post. c # cs = pre @ q @ post"
    proof cases
      case 1
      then obtain post where "c # cs = q @ post" by (auto simp: prefix_def)
      then have "c # cs = [] @ q @ post" by simp
      then show ?thesis by blast
    next
      case 2
      with Cons.IH obtain pre post where "cs = pre @ q @ post" by blast
      then have "c # cs = (c # pre) @ q @ post" by simp
      then show ?thesis by blast
    qed
  next
    assume "\<exists>pre post. c # cs = pre @ q @ post"
    then obtain pre post where eq: "c # cs = pre @ q @ post" by blast
    show "string_includes (c # cs) q"
    proof (cases pre)
      case Nil
      with eq have "prefix q (c # cs)" by (simp add: prefix_def)
      then show ?thesis by simp
    next
      case (Cons p ps)
      with eq have "cs = ps @ q @ post" by simp
      with Cons.IH have "string_includes cs q" by blast
      then show ?thesis by simp
    qed
  qed
qed

lemma string_includes_empty: "string_includes s []"
  by (cases s) simp_all

text \<open>
  Claim C8. For all items, search text, sort mode and direction, the view is a
  permutation of the items whose lower-cased name contains the lower-cased search text
  as a substring; the empty search text keeps every item.
\<close>

theorem view_permutation_of_matches:
  "mset (view toLowerCase localeCompare images completedSet searchText sortMode sortDirection) =
     mset (filter (\<lambda>i. \<exists>pre post. toLowerCase (name i) = pre @ toLowerCase searchText @ post)
             images) \<and>
   (toLowerCase [] = [] \<longrightarrow>
      mset (view toLowerCase localeCompare images completedSet [] sortMode sortDirection) =
        mset images)"
proof -
  have "filteredImages toLowerCase images searchText =
      filter (\<lambda>i. \<exists>pre post. toLowerCase (name i) = pre @ toLowerCase searchText @ post) images"
    by (simp add: filteredImages_def string_includes_iff)
  moreover have "toLowerCase [] = [] \<Longrightarrow> filteredImages toLowerCase images [] = images"
    by (simp add: filteredImages_def string_includes_empty)
  ultimately show ?thesis
    by (auto simp: view_def sortedImages_def mset_array_sort)
qed

theorem view_permutation_of_matches_witness:
  "asciiLower [] = [] \<and>
   view asciiLower lexCompare
     [\<lparr>name = ''Ahri'', src = ''a''\<rparr>, \<lparr>name = ''Zed'', src = ''z''\<rparr>, \<lparr>name = ''Lux'', src = ''l''\<rparr>]
     [''Zed''] ''z'' Alphabetical Desc = [\<lparr>name = ''Zed'', src = ''z''\<rparr>] \<and>
   mset (view asciiLower lexCompare
     [\<lparr>name = ''Ahri'', src = ''a''\<rparr>, \<lparr>name = ''Zed'', src = ''z''\<rparr>, \<lparr>name = ''Lux'', src = ''l''\<rparr>]
     [''Zed''] [] Alphabetical Desc) =
   mset [\<lparr>name = ''Ahri'', src = ''a''\<rparr>, \<lparr>name = ''Zed'', src = ''z''\<rparr>, \<lparr>name = ''Lux'', src = ''l''\<rparr>]"
proof -
  have e: "asciiLower [] = []" by (simp add: asciiLower_def)
  have run: "view asciiLower lexCompare
     [\<lparr>name = ''Ahri'', src = ''a''\<rparr>, \<lparr>name = ''Zed'', src = ''z''\<rparr>, \<lparr>name = ''Lux'', src = ''l''\<rparr>]
     [''Zed''] ''z'' Alphabetical Desc = [\<lparr>name = ''Zed'', src = ''z''\<rparr>]"
    by code_simp
  from view_permutation_of_matches [of asciiLower lexCompare
      "[\<lparr>name = ''Ahri'', src = ''a''\<rparr>, \<lparr>name = ''Zed'', src = ''z''\<rparr>, \<lparr>name = ''Lux'', src = ''l''\<rparr>]"
      "[''Zed'']" "[]" Alphabetical Desc, THEN conjunct2, rule_format, OF e] e run
  show ?thesis by simp
qed

section \<open>Properties of the local storage module\<close>


lemma findIndex_None: "findIndex P xs = None \<longleftrightarrow> (\<forall>x \<in> set xs. \<not> P x)"
  by (induction xs) (auto split: option.splits)

lemma findIndex_Some:
  "findIndex P xs = Some i \<Longrightarrow>
   \<exists>pre q post. xs = pre @ q # post \<and> P q \<and> (\<forall>r \<in> set pre. \<not> P r) \<and> length pre = i"
proof (induction xs arbitrary: i)
  case Nil
  then show ?case by simp
next
  case (Cons x xs)
  show ?case
  proof (cases "P x")
    case True
    with Cons.prems have "i = 0" by simp
    with True have "x # xs = [] @ x # xs \<and> P x \<and> (\<forall>r \<in> set []. \<not> P r) \<and> length ([] :: 'a list) = i"
      by simp
    then show ?thesis by blast
  next
    case False
    with Cons.prems obtain j where j: "findIndex P xs = Some j" "i = Suc j"
      by (auto split: option.splits)
    from Cons.IH [OF j(1)] obtain pre q post
      where "xs = pre @ q # post" "P q" "\<forall>r \<in> set pre. \<not> P r" "length pre = j" by blast
    with False j(2)
    have "x # xs = (x # pre) @ q # post \<and> P q \<and> (\<forall>r \<in> set (x # pre). \<not> P r) \<and> length (x # pre) = i"
      by simp
    then show ?thesis by blast
  qed
qed

lemma storage_get_set:
  "storage_getProfiles (storage_setProfiles ps (Some ls)) = ps"
  by (simp add: storage_getProfiles_def storage_setProfiles_def JSON_stringify_def)

lemma storage_set_other_keys:
  "k \<noteq> STORAGE_KEYS_PROFILES \<Longrightarrow> the (storage_setProfiles ps (Some ls)) k = ls k"
  by (simp add: storage_setProfiles_def)

lemma storage_update_hit:
  assumes "findIndex (\<lambda>q. id' q = id' p) (storage_getProfiles (Some ls)) = Some i"
  shows "storage_updateProfile p (Some ls) =
           storage_setProfiles ((storage_getProfiles (Some ls))[i := p]) (Some ls)"
  using assms by (simp add: storage_updateProfile_def Let_def)

lemma storage_update_miss:
  assumes "findIndex (\<lambda>q. id' q = id' p) (storage_getProfiles (Some ls)) = None"
  shows "storage_updateProfile p (Some ls) =
           storage_setProfiles (storage_getProfiles (Some ls) @ [p]) (Some ls)"
  using assms by (simp add: storage_updateProfile_def Let_def)

text \<open>
  Claim C10. In a browser (a window with its local storage), \<open>storage_updateProfile\<close>
  is an upsert: when a stored profile has the id of \<open>p\<close>, the first such entry is
  replaced in place by \<open>p\<close>; otherwise \<open>p\<close> is appended. In both cases the stored
  profiles with another id are the same, in the same order, and the other keys of the
  storage keep their values.
\<close>

theorem storage_updateProfile_upsert:
  "(let before = storage_getProfiles (Some ls);
        after = storage_getProfiles (storage_updateProfile p (Some ls))
    in (if \<exists>q \<in> set before. id' q = id' p
        then \<exists>pre q post. before = pre @ q # post \<and> id' q = id' p \<and>
               (\<forall>r \<in> set pre. id' r \<noteq> id' p) \<and> after = pre @ p # post
        else after = before @ [p]) \<and>
       filter (\<lambda>q. id' q \<noteq> id' p) after = filter (\<lambda>q. id' q \<noteq> id' p) before) \<and>
   (\<forall>k. k \<noteq> STORAGE_KEYS_PROFILES \<longrightarrow> the (storage_updateProfile p (Some ls)) k = ls k)"
proof -
  let ?before = "storage_getProfiles (Some ls)"
  let ?after = "storage_getProfiles (storage_updateProfile p (Some ls))"
  let ?P = "\<lambda>q. id' q = id' p"
  have main:
    "(if \<exists>q \<in> set ?before. ?P q
      then \<exists>pre q post. ?before = pre @ q # post \<and> ?P q \<and>
             (\<forall>r \<in> set pre. id' r \<noteq> id' p) \<and> ?after = pre @ p # post
      else ?after = ?before @ [p]) \<and>
     filter (\<lambda>q. id' q \<noteq> id' p) ?after = filter (\<lambda>q. id' q \<noteq> id' p) ?before \<and>
     (\<forall>k. k \<noteq> STORAGE_KEYS_PROFILES \<longrightarrow> the (storage_updateProfile p (Some ls)) k = ls k)"
  proof (cases "findIndex ?P ?before")
    case None
    then have no: "\<forall>q \<in> set ?before. \<not> ?P q" by (simp add: findIndex_None)
    from None have upd: "storage_updateProfile p (Some ls) =
        storage_setProfiles (?before @ [p]) (Some ls)"
      by (rule storage_update_miss)
    then have after: "?after = ?before @ [p]" by (simp add: storage_get_set)
    from no after upd show ?thesis by (simp add: storage_set_other_keys)
  next
    case (Some i)
    from findIndex_Some [OF Some] obtain pre q post
      where split: "?before = pre @ q # post" "?P q" "\<forall>r \<in> set pre. \<not> ?P r" "length pre = i"
      by blast
    from Some have upd: "storage_updateProfile p (Some ls) =
        storage_setProfiles (?before[i := p]) (Some ls)"
      by (rule storage_update_hit)
    then have "?after = ?before[i := p]" by (simp add: storage_get_set)
    with split have after: "?after = pre @ p # post" by (simp add: list_update_append)
    from split have ex: "\<exists>q \<in> set ?before. ?P q" by auto
    from split after
    have "\<exists>pre q post. ?before = pre @ q # post \<and> ?P q \<and>
             (\<forall>r \<in> set pre. id' r \<noteq> id' p) \<and> ?after = pre @ p # post"
      by blast
    moreover from split after
    have "filter (\<lambda>q. id' q \<noteq> id' p) ?after = filter (\<lambda>q. id' q \<noteq> id' p) ?before"
      by simp
    ultimately show ?thesis using ex upd by (simp add: storage_set_other_keys)
  qed
  then show ?thesis by (simp add: Let_def)
qed


theorem storage_updateProfile_upsert_witness:
  "storage_getProfiles (storage_updateProfile (profileData ''2'' ''Friend'' [''Zed''] 7)
      (Some [STORAGE_KEYS_PROFILES \<mapsto>
        JSON [profileData ''1'' ''Me'' [] 1, profileData ''2'' ''My Friend'' [] 2]])) =
     [profileData ''1'' ''Me'' [] 1, profileData ''2'' ''Friend'' [''Zed''] 7] \<and>
   filter (\<lambda>q. id' q \<noteq> ''3'')
     (storage_getProfiles (storage_updateProfile (profileData ''3'' ''New'' [] 9)
        (Some [STORAGE_KEYS_PROFILES \<mapsto>
          JSON [profileData ''1'' ''Me'' [] 1, profileData ''2'' ''My Friend'' [] 2]]))) =
     [profileData ''1'' ''Me'' [] 1, profileData ''2'' ''My Friend'' [] 2] \<and>
   the (storage_updateProfile (profileData ''3'' ''New'' [] 9)
        (Some [STORAGE_KEYS_PROFILES \<mapsto>
          JSON [profileData ''1'' ''Me'' [] 1, profileData ''2'' ''My Friend'' [] 2]]))
     STORAGE_KEYS_RIOT_ID = None"
proof -
  let ?ls = "[STORAGE_KEYS_PROFILES \<mapsto>
        JSON [profileData ''1'' ''Me'' [] 1, profileData ''2'' ''My Friend'' [] 2]]"
  have before: "storage_getProfiles (Some ?ls) =
      [profileData ''1'' ''Me'' [] 1, profileData ''2'' ''My Friend'' [] 2]"
    by (simp add: storage_getProfiles_def)
  have replaced: "storage_getProfiles (storage_updateProfile (profileData ''2'' ''Friend'' [''Zed''] 7)
      (Some ?ls)) = [profileData ''1'' ''Me'' [] 1, profileData ''2'' ''Friend'' [''Zed''] 7]"
    by (simp add: storage_updateProfile_def storage_getProfiles_def storage_setProfiles_def
        JSON_stringify_def profileData_def)
  have key: "STORAGE_KEYS_RIOT_ID \<noteq> STORAGE_KEYS_PROFILES"
    by (simp add: STORAGE_KEYS_RIOT_ID_def STORAGE_KEYS_PROFILES_def)
  note upsert = storage_updateProfile_upsert [of ?ls "profileData ''3'' ''New'' [] 9"]
  from upsert have "filter (\<lambda>q. id' q \<noteq> id' (profileData ''3'' ''New'' [] 9))
      (storage_getProfiles (storage_updateProfile (profileData ''3'' ''New'' [] 9) (Some ?ls))) =
      filter (\<lambda>q. id' q \<noteq> id' (profileData ''3'' ''New'' [] 9)) (storage_getProfiles (Some ?ls))"
    by (simp add: Let_def)
  then have others: "filter (\<lambda>q. id' q \<noteq> ''3'')
      (storage_getProfiles (storage_updateProfile (profileData ''3'' ''New'' [] 9) (Some ?ls))) =
      [profileData ''1'' ''Me'' [] 1, profileData ''2'' ''My Friend'' [] 2]"
    by (simp add: storage_getProfiles_def profileData_def)
  from upsert key have "the (storage_updateProfile (profileData ''3'' ''New'' [] 9) (Some ?ls))
      STORAGE_KEYS_RIOT_ID = ?ls STORAGE_KEYS_RIOT_ID"
    by blast
  with key have riot: "the (storage_updateProfile (profileData ''3'' ''New'' [] 9) (Some ?ls))
      STORAGE_KEYS_RIOT_ID = None"
    by simp
  from replaced others riot show ?thesis by blast
qed

section \<open>Properties of the subscription\<close>


lemma guarded_deliver: "guarded s \<Longrightarrow> guarded (deliver e s)"
  by (cases e)
    (auto simp: guarded_def processUpdate_call_def processUpdate_resume_def Let_def
      split: option.splits if_splits)

lemma guarded_deliver_all: "guarded s \<Longrightarrow> guarded (deliver_all es s)"
  by (induction es arbitrary: s) (auto simp: guarded_deliver)

lemma guarded_initial: "guarded subscribeToProfiles"
  by (simp add: guarded_def subscribeToProfiles_def)

lemma deliver_all_append: "deliver_all (es @ fs) s = deliver_all fs (deliver_all es s)"
  by (induction es arbitrary: s) auto

lemma started_fetches:
  "length (invocations (deliver e s)) + inFlight (deliver e s) \<le>
     length (invocations s) + inFlight s + (if e = ChangeNotification then 1 else 0)"
  by (cases e)
    (auto simp: processUpdate_call_def processUpdate_resume_def Let_def split: option.splits)

lemma invocations_bounded:
  "length (invocations (deliver_all es s)) + inFlight (deliver_all es s) \<le>
     length (invocations s) + inFlight s + length (filter (\<lambda>e. e = ChangeNotification) es)"
proof (induction es arbitrary: s)
  case Nil
  show ?case by simp
next
  case (Cons e es)
  from Cons.IH [of "deliver e s"] started_fetches [of e s]
  show ?case by (cases "e = ChangeNotification") auto
qed

text \<open>
  Claim C6. After any sequence of events, at most one fetch is in flight; when one is in
  flight, a change notification that arrives leaves the subscription as it is (no fetch
  is started and nothing is queued), so the rest of the run is the run without that
  notification; and the callback is invoked at most once per notification.
\<close>

theorem notifications_coalesced:
  "(let s = deliver_all es subscribeToProfiles in
      inFlight s \<le> 1 \<and>
      (0 < inFlight s \<longrightarrow>
         deliver ChangeNotification s = s \<and>
         deliver_all (ChangeNotification # later) s = deliver_all later s)) \<and>
   length (invocations (deliver_all es subscribeToProfiles)) \<le>
     length (filter (\<lambda>e. e = ChangeNotification) es)"
proof -
  let ?s = "deliver_all es subscribeToProfiles"
  have g: "guarded ?s" by (rule guarded_deliver_all [OF guarded_initial])
  then have one: "inFlight ?s \<le> 1" by (simp add: guarded_def split: if_splits)
  have drop: "deliver ChangeNotification ?s = ?s" if "0 < inFlight ?s"
  proof -
    from g that have "isProcessing ?s" by (simp add: guarded_def split: if_splits)
    then show ?thesis by (simp add: processUpdate_call_def)
  qed
  from invocations_bounded [of es subscribeToProfiles]
  have count: "length (invocations ?s) \<le> length (filter (\<lambda>e. e = ChangeNotification) es)"
    by (simp add: subscribeToProfiles_def)
  from one drop count show ?thesis by (simp add: Let_def)
qed

theorem notifications_coalesced_witness:
  "0 < inFlight (deliver_all [ChangeNotification] subscribeToProfiles) \<and>
   deliver_all [ChangeNotification, ChangeNotification, FetchResolved [], FetchResolved []]
     subscribeToProfiles =
   deliver_all [ChangeNotification, FetchResolved [], FetchResolved []] subscribeToProfiles \<and>
   invocations (deliver_all [ChangeNotification, ChangeNotification, FetchResolved [], FetchResolved []]
     subscribeToProfiles) = [[]]"
proof -
  have p: "0 < inFlight (deliver_all [ChangeNotification] subscribeToProfiles)"
    by (simp add: subscribeToProfiles_def processUpdate_call_def)
  from notifications_coalesced [of "[ChangeNotification]" "[FetchResolved [], FetchResolved []]"] p
  have "deliver_all (ChangeNotification # [FetchResolved [], FetchResolved []])
          (deliver_all [ChangeNotification] subscribeToProfiles) =
        deliver_all [FetchResolved [], FetchResolved []]
          (deliver_all [ChangeNotification] subscribeToProfiles)"
    by (simp add: Let_def)
  then have same: "deliver_all [ChangeNotification, ChangeNotification, FetchResolved [], FetchResolved []]
     subscribeToProfiles =
   deliver_all [ChangeNotification, FetchResolved [], FetchResolved []] subscribeToProfiles"
    by simp
  have inv: "invocations (deliver_all [ChangeNotification, ChangeNotification, FetchResolved [], FetchResolved []]
     subscribeToProfiles) = [[]]"
    by (simp add: subscribeToProfiles_def processUpdate_call_def processUpdate_resume_def)
  from p same inv show ?thesis by blast
qed


lemma after_unsubscribe_ok_deliver: "after_unsubscribe_ok s \<Longrightarrow> after_unsubscribe_ok (deliver e s)"
  by (cases e)
    (auto simp: after_unsubscribe_ok_def guarded_def processUpdate_call_def
      processUpdate_resume_def Let_def split: option.splits if_splits)

lemma after_unsubscribe_ok_deliver_all:
  "after_unsubscribe_ok s \<Longrightarrow> after_unsubscribe_ok (deliver_all es s)"
  by (induction es arbitrary: s) (auto simp: after_unsubscribe_ok_deliver)

lemma after_unsubscribe_ok_initial: "after_unsubscribe_ok subscribeToProfiles"
  by (simp add: after_unsubscribe_ok_def guarded_def subscribeToProfiles_def)

lemma left_deliver:
  "\<not> joined s \<Longrightarrow>
   \<not> joined (deliver e s) \<and>
   length (invocations (deliver e s)) + inFlight (deliver e s) \<le> length (invocations s) + inFlight s"
  by (cases e) (auto simp: processUpdate_resume_def Let_def split: option.splits)

lemma left_deliver_all:
  "\<not> joined s \<Longrightarrow>
   length (invocations (deliver_all es s)) + inFlight (deliver_all es s) \<le>
     length (invocations s) + inFlight s"
proof (induction es arbitrary: s)
  case Nil
  show ?case by simp
next
  case (Cons e es)
  from left_deliver [OF Cons.prems, of e] Cons.IH [of "deliver e s"]
  show ?case by auto
qed

lemma idle_deliver: "\<not> joined s \<Longrightarrow> inFlight s = 0 \<Longrightarrow> deliver e s = s"
  by (cases e) auto

lemma idle_deliver_all: "\<not> joined s \<Longrightarrow> inFlight s = 0 \<Longrightarrow> deliver_all es s = s"
  by (induction es) (auto simp: idle_deliver)

text \<open>
  Claim C5, as stated, fails: a fetch that is in flight at \<^verbatim>\<open>unsubscribe()\<close> still
  delivers its response to the callback.
\<close>

theorem unsubscribe_in_flight_counterexample:
  "invocations (deliver_all [ChangeNotification, Unsubscribe] subscribeToProfiles) = [] \<and>
   invocations (deliver_all
      [ChangeNotification, Unsubscribe, FetchResolved [profileData ''p'' ''Me'' [] 0]]
      subscribeToProfiles) = [[profileData ''p'' ''Me'' [] 0]] \<and>
   invokedAfterUnsubscribe (deliver_all
      [ChangeNotification, Unsubscribe, FetchResolved [profileData ''p'' ''Me'' [] 0]]
      subscribeToProfiles) = 1"
  by (simp add: subscribeToProfiles_def processUpdate_call_def processUpdate_resume_def)

text \<open>
  Claim C5, amended. After \<^verbatim>\<open>unsubscribe()\<close> no fetch is started; the callback is
  invoked at most once more, and only for a fetch that was in flight at that moment:
  the later invocations and unsettled fetches together number at most the fetches in
  flight at \<^verbatim>\<open>unsubscribe()\<close>, and with none in flight the callback is not invoked
  again.
\<close>

theorem unsubscribe_stops_new_fetches:
  "(let atUnsubscribe = deliver_all earlier subscribeToProfiles;
        s = deliver_all later (deliver Unsubscribe atUnsubscribe)
    in invokedAfterUnsubscribe s \<le> 1 \<and>
       length (invocations s) + inFlight s \<le>
         length (invocations atUnsubscribe) + inFlight atUnsubscribe \<and>
       (inFlight atUnsubscribe = 0 \<longrightarrow> invocations s = invocations atUnsubscribe))"
proof -
  let ?u = "deliver_all earlier subscribeToProfiles"
  let ?s = "deliver_all later (deliver Unsubscribe ?u)"
  have "after_unsubscribe_ok ?s"
    by (intro after_unsubscribe_ok_deliver_all after_unsubscribe_ok_deliver
        after_unsubscribe_ok_initial)
  then have one: "invokedAfterUnsubscribe ?s \<le> 1"
    by (auto simp: after_unsubscribe_ok_def split: if_splits)
  have left: "\<not> joined (deliver Unsubscribe ?u)" by simp
  from left_deliver_all [OF left, of later]
  have count: "length (invocations ?s) + inFlight ?s \<le> length (invocations ?u) + inFlight ?u"
    by simp
  have idle: "invocations ?s = invocations ?u" if "inFlight ?u = 0"
  proof -
    from that have "inFlight (deliver Unsubscribe ?u) = 0" by simp
    from idle_deliver_all [OF left this, of later] show ?thesis by simp
  qed
  from one count idle show ?thesis by (simp add: Let_def)
qed

theorem unsubscribe_stops_new_fetches_witness:
  "inFlight (deliver_all [ChangeNotification, FetchResolved []] subscribeToProfiles) = 0 \<and>
   invocations (deliver_all [ChangeNotification, FetchResolved [], ChangeNotification]
     (deliver Unsubscribe (deliver_all [ChangeNotification, FetchResolved []] subscribeToProfiles))) =
   [[]]"
proof -
  have idle: "inFlight (deliver_all [ChangeNotification, FetchResolved []] subscribeToProfiles) = 0"
    by (simp add: subscribeToProfiles_def processUpdate_call_def processUpdate_resume_def)
  have before: "invocations (deliver_all [ChangeNotification, FetchResolved []] subscribeToProfiles) = [[]]"
    by (simp add: subscribeToProfiles_def processUpdate_call_def processUpdate_resume_def)
  from unsubscribe_stops_new_fetches [of "[ChangeNotification, FetchResolved []]"
      "[ChangeNotification, FetchResolved [], ChangeNotification]"] idle
  have "invocations (deliver_all [ChangeNotification, FetchResolved [], ChangeNotification]
     (deliver Unsubscribe (deliver_all [ChangeNotification, FetchResolved []] subscribeToProfiles))) =
     invocations (deliver_all [ChangeNotification, FetchResolved []] subscribeToProfiles)"
    by (simp add: Let_def)
  with idle before show ?thesis by simp
qed

section \<open>Properties of the data layer and the profile manager\<close>


subsection \<open>Requests\<close>

lemma table_answered [simp]: "table (answered r) = table r"
  and faults_answered [simp]: "faults (answered r) = tl (faults r)"
  and nextKey_answered [simp]: "nextKey (answered r) = nextKey r"
  and clock_answered [simp]: "clock (answered r) = Suc (clock r)"
  by (simp_all add: answered_def)

lemma request_fails_no_faults [simp]: "faults r = [] \<Longrightarrow> \<not> request_fails r"
  by (simp add: request_fails_def)

lemma getProfiles_failed: "request_fails r \<Longrightarrow> getProfiles r = ([], answered r)"
  by (simp add: getProfiles_def select_ordered_def failure_def)

lemma getProfiles_fetched:
  "\<not> request_fails r \<Longrightarrow> getProfiles r = (sort_key created_at (table r), answered r)"
  by (simp add: getProfiles_def select_ordered_def success_def)

lemma createProfile_failed: "request_fails r \<Longrightarrow> createProfile nm r = (None, answered r)"
  by (simp add: createProfile_def insert_row_def failure_def)

lemma createProfile_created:
  "\<not> request_fails r \<Longrightarrow>
   createProfile nm r =
     (Some (profileData (key_of (nextKey r)) nm [] (clock r)),
      (answered r)\<lparr>table := table r @ [profileData (key_of (nextKey r)) nm [] (clock r)],
                   nextKey := Suc (nextKey r)\<rparr>)"
  by (simp add: createProfile_def insert_row_def success_def Let_def)

lemma updateProfile_failed: "request_fails r \<Longrightarrow> updateProfile p r = (None, answered r)"
  by (simp add: updateProfile_def update_rows_def failure_def)

lemma deleteProfile_failed: "request_fails r \<Longrightarrow> deleteProfile i r = (False, answered r)"
  by (simp add: deleteProfile_def delete_rows_def failure_def)

lemma deleteProfile_deleted:
  "\<not> request_fails r \<Longrightarrow>
   deleteProfile i r = (True, (answered r)\<lparr>table := filter (\<lambda>row. id' row \<noteq> i) (table r)\<rparr>)"
  by (simp add: deleteProfile_def delete_rows_def success_def)

lemma testConnection_failed: "request_fails r \<Longrightarrow> testConnection r = (False, answered r)"
  by (simp add: testConnection_def select_count_def failure_def)

lemma testConnection_connected: "\<not> request_fails r \<Longrightarrow> testConnection r = (True, answered r)"
  by (simp add: testConnection_def select_count_def success_def)

subsection \<open>Objects made from JSON\<close>

lemma parseProfiles_Cons:
  "parseProfiles h (p # ps) =
     (fst (parseProfiles (h @ [firstplacechampions p]) ps),
      snd (parseProfile h p) # snd (parseProfiles (h @ [firstplacechampions p]) ps))"
  by (simp add: parseProfile_def split_def)

lemma parseProfiles_heap: "fst (parseProfiles h rows) = h @ map firstplacechampions rows"
  by (induction rows arbitrary: h) (simp_all add: parseProfiles_Cons del: parseProfiles.simps(2))

lemma parseProfiles_length: "length (snd (parseProfiles h rows)) = length rows"
  by (induction rows arbitrary: h) (simp_all add: parseProfiles_Cons del: parseProfiles.simps(2))

lemma parseProfiles_ids: "map id' (snd (parseProfiles h rows)) = map id' rows"
  by (induction rows arbitrary: h)
    (simp_all add: parseProfiles_Cons parseProfile_def del: parseProfiles.simps(2))

lemma parseProfiles_names: "map Profile.name (snd (parseProfiles h rows)) = map Profile.name rows"
  by (induction rows arbitrary: h)
    (simp_all add: parseProfiles_Cons parseProfile_def del: parseProfiles.simps(2))

lemma parseProfiles_empty: "snd (parseProfiles h rows) = [] \<longleftrightarrow> rows = []"
  using parseProfiles_length [of h rows] by (metis length_0_conv)

lemma deref_append: "a < length h \<Longrightarrow> deref (h @ ext) a = deref h a"
  by (simp add: deref_def nth_append)

lemma deref_fresh: "deref (h @ x # ext) (length h) = x"
  by (simp add: deref_def nth_append)

lemma serialize_append:
  "firstplacechampions obj < length h \<Longrightarrow> serialize (h @ ext) obj = serialize h obj"
  by (simp add: serialize_def deref_append)

lemma parseProfiles_serialize:
  "map (serialize (fst (parseProfiles h rows) @ ext)) (snd (parseProfiles h rows)) = rows"
proof (induction rows arbitrary: h ext)
  case Nil
  show ?case by simp
next
  case (Cons p ps)
  let ?h1 = "h @ [firstplacechampions p]"
  have hd: "serialize (fst (parseProfiles ?h1 ps) @ ext) (snd (parseProfile h p)) = p"
    by (simp add: parseProfiles_heap parseProfile_def serialize_def deref_fresh)
  from Cons.IH [of ?h1 ext] hd show ?case
    by (simp add: parseProfiles_Cons del: parseProfiles.simps(2))
qed

lemma parseProfiles_refs:
  "\<forall>obj \<in> set (snd (parseProfiles h rows)).
     length h \<le> firstplacechampions obj \<and>
     firstplacechampions obj < length (fst (parseProfiles h rows))"
proof (induction rows arbitrary: h)
  case Nil
  show ?case by simp
next
  case (Cons p ps)
  from Cons.IH [of "h @ [firstplacechampions p]"] show ?case
    by (auto simp: parseProfiles_Cons parseProfile_def parseProfiles_heap
        simp del: parseProfiles.simps(2))
qed


lemma request_fails_fault_at: "request_fails r = fault_at 0 r"
  by (cases "faults r") (simp_all add: request_fails_def fault_at_def)

lemma fault_at_answered [simp]: "fault_at k (answered r) = fault_at (Suc k) r"
  by (cases "faults r") (simp_all add: fault_at_def)

lemma fault_at_table_update [simp]: "fault_at k (r\<lparr>table := t\<rparr>) = fault_at k r"
  and fault_at_nextKey_update [simp]: "fault_at k (r\<lparr>nextKey := n\<rparr>) = fault_at k r"
  by (simp_all add: fault_at_def)

lemma answered_table_update [simp]: "answered (r\<lparr>table := t\<rparr>) = (answered r)\<lparr>table := t\<rparr>"
  and answered_nextKey_update [simp]: "answered (r\<lparr>nextKey := n\<rparr>) = (answered r)\<lparr>nextKey := n\<rparr>"
  by (simp_all add: answered_def)

lemma fault_at_no_faults [simp]: "faults r = [] \<Longrightarrow> \<not> fault_at k r"
  by (simp add: fault_at_def)

lemma getProfiles_eq:
  "getProfiles r = (if fault_at 0 r then [] else sort_key created_at (table r), answered r)"
  by (simp add: getProfiles_failed getProfiles_fetched request_fails_fault_at [symmetric])

lemma createProfile_eq:
  "createProfile nm r =
     (if fault_at 0 r then (None, answered r)
      else (Some (profileData (key_of (nextKey r)) nm [] (clock r)),
            (answered r)\<lparr>table := table r @ [profileData (key_of (nextKey r)) nm [] (clock r)],
                         nextKey := Suc (nextKey r)\<rparr>))"
  by (simp add: createProfile_failed createProfile_created request_fails_fault_at [symmetric])

lemma deleteProfile_eq:
  "deleteProfile i r =
     (\<not> fault_at 0 r,
      if fault_at 0 r then answered r
      else (answered r)\<lparr>table := filter (\<lambda>row. id' row \<noteq> i) (table r)\<rparr>)"
  by (simp add: deleteProfile_failed deleteProfile_deleted request_fails_fault_at [symmetric])

lemma loadProfiles_fetched:
  assumes "\<not> fault_at 0 (remote w)" "table (remote w) \<noteq> []"
  shows "loadProfiles w =
     w\<lparr>remote := answered (remote w),
       heap := fst (parseProfiles (heap w) (sort_key created_at (table (remote w)))),
       state := (state w)\<lparr>loading := True,
          profiles := snd (parseProfiles (heap w) (sort_key created_at (table (remote w)))),
          selectedProfile :=
            first_or_null (snd (parseProfiles (heap w) (sort_key created_at (table (remote w))))),
          loading := False\<rparr>\<rparr>"
proof -
  from assms(2) have "sort_key created_at (table (remote w)) \<noteq> []"
    by (metis length_0_conv length_sort)
  then have "snd (parseProfiles (heap w) (sort_key created_at (table (remote w)))) \<noteq> []"
    by (simp add: parseProfiles_empty)
  with assms(1) show ?thesis
    by (simp add: loadProfiles_def getProfiles_eq split_def Let_def)
qed

lemma loadProfiles_seeded:
  assumes "fault_at 0 (remote w) \<or> table (remote w) = []"
  shows "loadProfiles w =
     w\<lparr>remote := (answered (answered (answered (remote w))))
                    \<lparr>table := table (remote w) @ defaultRows (remote w),
                     nextKey := nextKey (remote w) + length (defaultRows (remote w))\<rparr>,
       heap := fst (parseProfiles (heap w) (defaultRows (remote w))),
       state := (state w)\<lparr>loading := True,
          profiles := snd (parseProfiles (heap w) (defaultRows (remote w))),
          selectedProfile := first_or_null (snd (parseProfiles (heap w) (defaultRows (remote w)))),
          loading := False\<rparr>\<rparr>"
proof -
  from assms have fetched: "getProfiles (remote w) = ([], answered (remote w))"
    by (auto simp: getProfiles_eq)
  show ?thesis
    unfolding loadProfiles_def fetched Let_def
    by (cases "fault_at 1 (remote w)"; cases "fault_at 2 (remote w)")
      (simp_all add: createProfile_eq defaultRows_def split_def numeral_2_eq_2)
qed


lemma defaultRows_names:
  "map Profile.name (defaultRows r) =
     (if fault_at 1 r then [] else [''Me'']) @ (if fault_at 2 r then [] else [''My Friend''])"
  by (simp add: defaultRows_def profileData_def)

lemma defaultRows_empty_lists: "\<forall>p \<in> set (defaultRows r). firstplacechampions p = []"
  by (simp add: defaultRows_def profileData_def)

text \<open>
  Claim C2, amended. \<open>getProfiles\<close> returns the rows ordered by creation time, and
  the empty collection when the fetch is answered with an error; it never throws.
  \<open>loadProfiles\<close> shows a non-empty fetched collection as it is, ordered by creation
  time ascending, and leaves the table alone. When the fetched collection is empty, by
  an empty table or by a fetch error alike, it asks the store to create "Me" and
  "My Friend", each with an empty completed list, and shows those whose creation
  succeeded. In every case the first shown profile is selected, loading ends, and the
  connection status is not changed.
\<close>

theorem loadProfiles_result:
  "(let r = remote w; w' = loadProfiles w;
        fetched = fst (getProfiles r);
        loaded = map (serialize (heap w')) (profiles (state w'))
    in fetched = (if fault_at 0 r then [] else sort_key created_at (table r)) \<and>
       (fetched \<noteq> [] \<longrightarrow>
          loaded = fetched \<and> sorted (map created_at loaded) \<and> table (remote w') = table r) \<and>
       (fetched = [] \<longrightarrow>
          loaded = defaultRows r \<and> table (remote w') = table r @ defaultRows r) \<and>
       map Profile.name (defaultRows r) =
         (if fault_at 1 r then [] else [''Me'']) @ (if fault_at 2 r then [] else [''My Friend'']) \<and>
       (\<forall>p \<in> set (defaultRows r). firstplacechampions p = []) \<and>
       selectedProfile (state w') = first_or_null (profiles (state w')) \<and>
       loading (state w') = False \<and>
       connectionStatus (state w') = connectionStatus (state w))"
proof -
  let ?r = "remote w"
  let ?fetched = "if fault_at 0 ?r then [] else sort_key created_at (table ?r)"
  have fetched: "fst (getProfiles ?r) = ?fetched" by (simp add: getProfiles_eq)
  have nonempty: "?fetched \<noteq> [] \<longleftrightarrow> \<not> fault_at 0 ?r \<and> table ?r \<noteq> []"
    by (metis length_0_conv length_sort)
  have rest:
    "(?fetched \<noteq> [] \<longrightarrow>
        map (serialize (heap (loadProfiles w))) (profiles (state (loadProfiles w))) = ?fetched \<and>
        sorted (map created_at
          (map (serialize (heap (loadProfiles w))) (profiles (state (loadProfiles w))))) \<and>
        table (remote (loadProfiles w)) = table ?r) \<and>
     (?fetched = [] \<longrightarrow>
        map (serialize (heap (loadProfiles w))) (profiles (state (loadProfiles w))) =
          defaultRows ?r \<and>
        table (remote (loadProfiles w)) = table ?r @ defaultRows ?r) \<and>
     selectedProfile (state (loadProfiles w)) = first_or_null (profiles (state (loadProfiles w))) \<and>
     loading (state (loadProfiles w)) = False \<and>
     connectionStatus (state (loadProfiles w)) = connectionStatus (state w)"
  proof (cases "?fetched \<noteq> []")
    case True
    with nonempty have ok: "\<not> fault_at 0 ?r" "table ?r \<noteq> []" by simp_all
    have ser: "map (serialize (fst (parseProfiles (heap w) (sort_key created_at (table ?r)))))
        (snd (parseProfiles (heap w) (sort_key created_at (table ?r)))) =
        sort_key created_at (table ?r)"
      using parseProfiles_serialize [of "heap w" "sort_key created_at (table ?r)" "[]"] by simp
    from True ok ser show ?thesis
      by (simp add: loadProfiles_fetched [OF ok])
  next
    case False
    with nonempty have seed: "fault_at 0 ?r \<or> table ?r = []" by blast
    have ser: "map (serialize (fst (parseProfiles (heap w) (defaultRows ?r))))
        (snd (parseProfiles (heap w) (defaultRows ?r))) = defaultRows ?r"
      using parseProfiles_serialize [of "heap w" "defaultRows ?r" "[]"] by simp
    from False ser show ?thesis
      by (simp add: loadProfiles_seeded [OF seed])
  qed
  from rest defaultRows_names [of ?r] defaultRows_empty_lists [of ?r]
  show ?thesis unfolding Let_def fetched by blast
qed

text \<open>
  Claim C2, as stated, fails where the fetch is answered with an error: the data layer
  returns the empty collection, and \<^verbatim>\<open>loadProfiles\<close> then takes the store for empty,
  creates the default profiles beside the stored one and shows them; the connection
  status stays as the connection test left it.
\<close>

theorem load_after_fetch_error_counterexample:
  "(let w = (worldWith [profileData ''x'' ''Old'' [''Zed''] 0] [True])
              \<lparr>state := initialState\<lparr>connectionStatus := ''Connected''\<rparr>\<rparr>;
        w' = loadProfiles w
    in fst (getProfiles (remote w)) = [] \<and>
       map Profile.name (profiles (state w')) = [''Me'', ''My Friend''] \<and>
       connectionStatus (state w') = ''Connected'' \<and>
       map Profile.name (table (remote w')) = [''Old'', ''Me'', ''My Friend''])"
  by code_simp


theorem loadProfiles_result_witness:
  "fst (getProfiles (remote (worldWith
      [profileData ''b'' ''Second'' [''Zed''] 5, profileData ''a'' ''First'' [] 3] []))) =
     [profileData ''a'' ''First'' [] 3, profileData ''b'' ''Second'' [''Zed''] 5] \<and>
   map (serialize (heap (loadProfiles (worldWith
      [profileData ''b'' ''Second'' [''Zed''] 5, profileData ''a'' ''First'' [] 3] []))))
     (profiles (state (loadProfiles (worldWith
      [profileData ''b'' ''Second'' [''Zed''] 5, profileData ''a'' ''First'' [] 3] [])))) =
     [profileData ''a'' ''First'' [] 3, profileData ''b'' ''Second'' [''Zed''] 5] \<and>
   fst (getProfiles (remote (worldWith [] []))) = [] \<and>
   map Profile.name (map (serialize (heap (loadProfiles (worldWith [] []))))
     (profiles (state (loadProfiles (worldWith [] []))))) = [''Me'', ''My Friend'']"
proof -
  let ?w = "worldWith [profileData ''b'' ''Second'' [''Zed''] 5, profileData ''a'' ''First'' [] 3] []"
  have f1: "fst (getProfiles (remote ?w)) =
      [profileData ''a'' ''First'' [] 3, profileData ''b'' ''Second'' [''Zed''] 5]"
    by code_simp
  with loadProfiles_result [of ?w]
  have l1: "map (serialize (heap (loadProfiles ?w))) (profiles (state (loadProfiles ?w))) =
      [profileData ''a'' ''First'' [] 3, profileData ''b'' ''Second'' [''Zed''] 5]"
    by (simp add: Let_def)
  have f2: "fst (getProfiles (remote (worldWith [] []))) = []"
    by code_simp
  have nf: "\<not> fault_at 1 (remote (worldWith [] []))" "\<not> fault_at 2 (remote (worldWith [] []))"
    by (simp_all add: worldWith_def)
  from loadProfiles_result [of "worldWith [] []"] f2
  have "map (serialize (heap (loadProfiles (worldWith [] []))))
     (profiles (state (loadProfiles (worldWith [] [])))) = defaultRows (remote (worldWith [] []))"
    by (simp add: Let_def)
  with nf have l2: "map Profile.name (map (serialize (heap (loadProfiles (worldWith [] []))))
     (profiles (state (loadProfiles (worldWith [] []))))) = [''Me'', ''My Friend'']"
    by (simp add: defaultRows_names)
  from f1 l1 f2 l2 show ?thesis by blast
qed


subsection \<open>The change of the completed list\<close>

lemma toggleChampion_absent:
  "champion \<notin> set arr \<Longrightarrow> toggleChampion champion arr = arr @ [champion]"
proof -
  assume "champion \<notin> set arr"
  then have "findIndex (\<lambda>c. c = champion) arr = None" by (auto simp: findIndex_None)
  then show ?thesis by (simp add: toggleChampion_def)
qed

lemma toggleChampion_present:
  assumes "champion \<in> set arr"
  shows "toggleChampion champion arr = remove1 champion arr"
proof -
  from assms obtain i where i: "findIndex (\<lambda>c. c = champion) arr = Some i"
    by (cases "findIndex (\<lambda>c. c = champion) arr") (auto simp: findIndex_None)
  from findIndex_Some [OF i] obtain pre post
    where arr: "arr = pre @ champion # post" and pre: "champion \<notin> set pre" and len: "length pre = i"
    by blast
  from arr len have "take i arr @ drop (i + 1) arr = pre @ post" by simp
  moreover from arr pre have "remove1 champion arr = pre @ post" by (simp add: remove1_append)
  ultimately show ?thesis using i by (simp add: toggleChampion_def)
qed

lemma toggleChampion_distinct: "distinct arr \<Longrightarrow> distinct (toggleChampion champion arr)"
  by (cases "champion \<in> set arr") (simp_all add: toggleChampion_present toggleChampion_absent)

lemma toggleChampion_set:
  "distinct arr \<Longrightarrow>
   set (toggleChampion champion arr) =
     (if champion \<in> set arr then set arr - {champion} else insert champion (set arr))"
  by (simp add: toggleChampion_present toggleChampion_absent)

lemma toggleChampion_twice:
  "distinct arr \<Longrightarrow> set (toggleChampion champion (toggleChampion champion arr)) = set arr"
proof (cases "champion \<in> set arr")
  case True
  assume d: "distinct arr"
  with True have "champion \<notin> set (toggleChampion champion arr)"
    by (simp add: toggleChampion_present)
  with True d show ?thesis
    by (auto simp: toggleChampion_absent toggleChampion_present)
next
  case False
  then have "toggleChampion champion (toggleChampion champion arr) =
      remove1 champion (arr @ [champion])"
    by (simp add: toggleChampion_absent toggleChampion_present)
  with False show ?thesis by (simp add: remove1_append)
qed


subsection \<open>The update request\<close>

lemma single_row_response:
  "(if error (case xs of [] \<Rightarrow> failure | [row] \<Rightarrow> success row | row # _ # _ \<Rightarrow> failure) \<noteq> None
    then (None, r)
    else (data (case xs of [] \<Rightarrow> failure | [row] \<Rightarrow> success row | row # _ # _ \<Rightarrow> failure), r)) =
   ((case xs of [] \<Rightarrow> None | [row] \<Rightarrow> Some row | row # _ # _ \<Rightarrow> None), r)"
proof (cases xs)
  case Nil
  then show ?thesis by (simp add: failure_def)
next
  case (Cons x ys)
  then show ?thesis by (cases ys) (simp_all add: failure_def success_def)
qed

lemma updateProfile_eq:
  "updateProfile d r =
     (if fault_at 0 r then (None, answered r)
      else
        ((case filter (\<lambda>row. id' row = id' d)
                 (map (apply_update (id' d) (Profile.name d) (firstplacechampions d) (clock r))
                   (table r)) of
            [row] \<Rightarrow> Some row
          | _ \<Rightarrow> None),
         (answered r)\<lparr>table :=
            map (apply_update (id' d) (Profile.name d) (firstplacechampions d) (clock r))
              (table r)\<rparr>))"
proof (cases "fault_at 0 r")
  case True
  then show ?thesis
    by (simp add: updateProfile_def update_rows_def failure_def request_fails_fault_at)
next
  case False
  then show ?thesis
    unfolding updateProfile_def update_rows_def Let_def
    by (simp only: request_fails_fault_at if_False prod.case single_row_response)
qed


lemma updateProfile_table:
  "table (snd (updateProfile d r)) =
     (if fault_at 0 r then table r
      else map (apply_update (id' d) (Profile.name d) (firstplacechampions d) (clock r)) (table r))"
  by (simp add: updateProfile_eq)

lemma updateProfile_faults: "faults (snd (updateProfile d r)) = tl (faults r)"
  by (simp add: updateProfile_eq)

lemma updateProfile_nextKey: "nextKey (snd (updateProfile d r)) = nextKey r"
  by (simp add: updateProfile_eq)


lemma apply_update_id [simp]: "id' (apply_update i nm cs ts row) = id' row"
  by (simp add: apply_update_def)

lemma apply_update_created_at [simp]: "created_at (apply_update i nm cs ts row) = created_at row"
  by (simp add: apply_update_def)

lemma apply_update_champions:
  "id' row = i \<Longrightarrow> firstplacechampions (apply_update i nm cs ts row) = cs"
  by (simp add: apply_update_def)

lemma updateProfile_accepted_rows:
  assumes "fst (updateProfile d r) = Some u"
  shows "\<not> fault_at 0 r \<and>
     (\<forall>row \<in> set (table (snd (updateProfile d r))).
        id' row = id' d \<longrightarrow> firstplacechampions row = firstplacechampions d) \<and>
     (\<exists>row \<in> set (table (snd (updateProfile d r))). id' row = id' d)"
proof -
  let ?f = "apply_update (id' d) (Profile.name d) (firstplacechampions d) (clock r)"
  let ?hits = "filter (\<lambda>row. id' row = id' d) (map ?f (table r))"
  have ok: "\<not> fault_at 0 r"
  proof
    assume "fault_at 0 r"
    then have "fst (updateProfile d r) = None" by (simp add: updateProfile_eq)
    with assms show False by simp
  qed
  then have "fst (updateProfile d r) = (case ?hits of [row] \<Rightarrow> Some row | _ \<Rightarrow> None)"
    by (simp only: updateProfile_eq if_False fst_conv)
  with assms have "?hits \<noteq> []" by (cases ?hits) simp_all
  then obtain x where "x \<in> set ?hits" by (cases ?hits) auto
  then have ex: "\<exists>row \<in> set (map ?f (table r)). id' row = id' d" by auto
  have all: "\<forall>row \<in> set (map ?f (table r)).
      id' row = id' d \<longrightarrow> firstplacechampions row = firstplacechampions d"
  proof (intro ballI impI)
    fix row assume "row \<in> set (map ?f (table r))" and i: "id' row = id' d"
    then obtain row0 where "row = ?f row0" by auto
    with i show "firstplacechampions row = firstplacechampions d"
      by (simp add: apply_update_champions)
  qed
  from ok have "table (snd (updateProfile d r)) = map ?f (table r)"
    by (simp only: updateProfile_table if_False)
  with ok ex all show ?thesis by (simp only: simp_thms)
qed


subsection \<open>Finding a parsed object by its id\<close>

lemma parseProfiles_find:
  "find (\<lambda>p. id' p = i) (snd (parseProfiles h rows)) = Some obj \<Longrightarrow>
   find (\<lambda>p. id' p = i) rows = Some (serialize (fst (parseProfiles h rows) @ ext) obj) \<and>
   firstplacechampions obj < length (fst (parseProfiles h rows))"
proof (induction rows arbitrary: h)
  case Nil
  then show ?case by simp
next
  case (Cons p ps)
  let ?h1 = "h @ [firstplacechampions p]"
  show ?case
  proof (cases "id' p = i")
    case True
    with Cons.prems have obj: "obj = snd (parseProfile h p)"
      by (simp add: parseProfiles_Cons parseProfile_def del: parseProfiles.simps(2))
    then have "serialize (fst (parseProfiles ?h1 ps) @ ext) obj = p"
      by (simp add: parseProfiles_heap parseProfile_def serialize_def deref_fresh)
    with True obj show ?thesis
      by (simp add: parseProfiles_Cons parseProfile_def parseProfiles_heap
          del: parseProfiles.simps(2))
  next
    case False
    with Cons.prems have "find (\<lambda>p. id' p = i) (snd (parseProfiles ?h1 ps)) = Some obj"
      by (simp add: parseProfiles_Cons parseProfile_def del: parseProfiles.simps(2))
    from Cons.IH [OF this] False show ?thesis
      by (simp add: parseProfiles_Cons del: parseProfiles.simps(2))
  qed
qed

lemma find_Some_member: "find P xs = Some x \<Longrightarrow> x \<in> set xs \<and> P x"
  by (induction xs) (auto split: if_splits)


subsection \<open>The update handler\<close>

lemma handleUpdateProfile_rejected:
  "fst (updateProfile (serialize (heap w) p) (remote w)) = None \<Longrightarrow>
   handleUpdateProfile p w = w\<lparr>remote := snd (updateProfile (serialize (heap w) p) (remote w))\<rparr>"
  by (simp add: handleUpdateProfile_def split_def)

lemma handleUpdateProfile_accepted:
  "fst (updateProfile (serialize (heap w) p) (remote w)) = Some u \<Longrightarrow>
   handleUpdateProfile p w =
     w\<lparr>remote := snd (getProfiles (snd (updateProfile (serialize (heap w) p) (remote w)))),
       heap := fst (parseProfiles (heap w)
                 (fst (getProfiles (snd (updateProfile (serialize (heap w) p) (remote w)))))),
       state :=
         (case find (\<lambda>q. id' q = id' p)
                 (snd (parseProfiles (heap w)
                    (fst (getProfiles (snd (updateProfile (serialize (heap w) p) (remote w))))))) of
            Some updatedSelected \<Rightarrow>
              (state w)\<lparr>editingProfile := None,
                 profiles := snd (parseProfiles (heap w)
                    (fst (getProfiles (snd (updateProfile (serialize (heap w) p) (remote w)))))),
                 selectedProfile := Some updatedSelected\<rparr>
          | None \<Rightarrow>
              (state w)\<lparr>editingProfile := None,
                 profiles := snd (parseProfiles (heap w)
                    (fst (getProfiles (snd (updateProfile (serialize (heap w) p) (remote w))))))\<rparr>)\<rparr>"
  by (simp add: handleUpdateProfile_def split_def Let_def)

lemma handleUpdateProfile_selected_array:
  assumes sel: "selectedProfile (state w) = Some p"
    and valid: "firstplacechampions p < length (heap w)"
  shows "selectedChampions (handleUpdateProfile p w) = deref (heap w) (firstplacechampions p) \<and>
     (\<exists>q. selectedProfile (state (handleUpdateProfile p w)) = Some q \<and> id' q = id' p \<and>
          firstplacechampions q < length (heap (handleUpdateProfile p w)))"
proof (cases "fst (updateProfile (serialize (heap w) p) (remote w))")
  case None
  from handleUpdateProfile_rejected [OF None] sel valid show ?thesis
    by (simp add: selectedChampions_def)
next
  case (Some u)
  let ?d = "serialize (heap w) p"
  let ?r1 = "snd (updateProfile ?d (remote w))"
  let ?rows = "fst (getProfiles ?r1)"
  let ?h1 = "fst (parseProfiles (heap w) ?rows)"
  let ?objs = "snd (parseProfiles (heap w) ?rows)"
  note eq = handleUpdateProfile_accepted [OF Some]
  have h1: "?h1 = heap w @ map firstplacechampions ?rows" by (rule parseProfiles_heap)
  show ?thesis
  proof (cases "find (\<lambda>q. id' q = id' p) ?objs")
    case None
    with eq sel have s: "selectedProfile (state (handleUpdateProfile p w)) = Some p"
      and h: "heap (handleUpdateProfile p w) = ?h1"
      by simp_all
    from valid h1 have "deref ?h1 (firstplacechampions p) = deref (heap w) (firstplacechampions p)"
      by (simp add: deref_append)
    with s h valid h1 show ?thesis by (simp add: selectedChampions_def)
  next
    case (Some q)
    with eq have s: "selectedProfile (state (handleUpdateProfile p w)) = Some q"
      and h: "heap (handleUpdateProfile p w) = ?h1"
      by simp_all
    from parseProfiles_find [OF Some, of "[]"]
    have found: "find (\<lambda>row. id' row = id' p) ?rows = Some (serialize ?h1 q)"
      and ref: "firstplacechampions q < length ?h1"
      by simp_all
    from find_Some_member [OF found]
    have mem: "serialize ?h1 q \<in> set ?rows" and idq: "id' (serialize ?h1 q) = id' p" by simp_all
    from mem have "serialize ?h1 q \<in> set (table ?r1)"
      by (auto simp: getProfiles_eq split: if_splits)
    moreover have "id' ?d = id' p" "firstplacechampions ?d = deref (heap w) (firstplacechampions p)"
      by (simp_all add: serialize_def)
    ultimately have "firstplacechampions (serialize ?h1 q) = deref (heap w) (firstplacechampions p)"
      using updateProfile_accepted_rows [OF \<open>fst (updateProfile ?d (remote w)) = Some u\<close>] idq
      by auto
    then have "deref ?h1 (firstplacechampions q) = deref (heap w) (firstplacechampions p)"
      by (simp add: serialize_def)
    moreover from idq have "id' q = id' p" by (simp add: serialize_def)
    ultimately show ?thesis using s h ref by (simp add: selectedChampions_def)
  qed
qed

lemma toggleChampionWin_selected_array:
  assumes sel: "selectedProfile (state w) = Some p"
    and valid: "firstplacechampions p < length (heap w)"
  shows "selectedChampions (toggleChampionWin champion w) =
       toggleChampion champion (selectedChampions w) \<and>
     (\<exists>q. selectedProfile (state (toggleChampionWin champion w)) = Some q \<and> id' q = id' p \<and>
          firstplacechampions q < length (heap (toggleChampionWin champion w)))"
proof -
  let ?a = "firstplacechampions p"
  let ?w1 = "w\<lparr>heap := (heap w)[?a := toggleChampion champion (deref (heap w) ?a)]\<rparr>"
  have run: "toggleChampionWin champion w = handleUpdateProfile p ?w1"
    using sel by (simp add: toggleChampionWin_def Let_def)
  have sel1: "selectedProfile (state ?w1) = Some p" using sel by simp
  have valid1: "?a < length (heap ?w1)" using valid by simp
  have "deref (heap ?w1) ?a = toggleChampion champion (deref (heap w) ?a)"
    using valid by (simp add: deref_def)
  with handleUpdateProfile_selected_array [OF sel1 valid1] run sel
  show ?thesis by (simp add: selectedChampions_def)
qed


text \<open>
  Claim C3. On a completed list without duplicates, the toggle removes the key when it
  is present and appends it otherwise, keeps the list free of duplicates, and applied
  twice gives back the same set. The handler \<open>toggleChampionWin\<close> changes the array
  of the selected profile in exactly this way, whatever the store answers, so two
  toggles of one key restore the selected profile's completed set.
\<close>

theorem toggleChampion_twice_restores:
  "(distinct completed \<longrightarrow>
      toggleChampion key completed =
        (if key \<in> set completed then remove1 key completed else completed @ [key]) \<and>
      set (toggleChampion key completed) =
        (if key \<in> set completed then set completed - {key} else insert key (set completed)) \<and>
      distinct (toggleChampion key completed) \<and>
      set (toggleChampion key (toggleChampion key completed)) = set completed) \<and>
   (selectedProfile (state w) = Some p \<and> firstplacechampions p < length (heap w) \<longrightarrow>
      selectedChampions (toggleChampionWin key w) = toggleChampion key (selectedChampions w)) \<and>
   (selectedProfile (state w) = Some p \<and> firstplacechampions p < length (heap w) \<and>
    distinct (selectedChampions w) \<longrightarrow>
      set (selectedChampions (toggleChampionWin key (toggleChampionWin key w))) =
        set (selectedChampions w))"
proof -
  have pure: "toggleChampion key completed =
        (if key \<in> set completed then remove1 key completed else completed @ [key]) \<and>
      set (toggleChampion key completed) =
        (if key \<in> set completed then set completed - {key} else insert key (set completed)) \<and>
      distinct (toggleChampion key completed) \<and>
      set (toggleChampion key (toggleChampion key completed)) = set completed"
    if "distinct completed"
    using that toggleChampion_set [OF that, of key] toggleChampion_distinct [OF that, of key]
      toggleChampion_twice [OF that, of key]
    by (simp add: toggleChampion_present toggleChampion_absent)
  have once: "selectedChampions (toggleChampionWin key w) = toggleChampion key (selectedChampions w)"
    if "selectedProfile (state w) = Some p" "firstplacechampions p < length (heap w)"
    using toggleChampionWin_selected_array [OF that] by simp
  have twice: "set (selectedChampions (toggleChampionWin key (toggleChampionWin key w))) =
        set (selectedChampions w)"
    if sel: "selectedProfile (state w) = Some p" and valid: "firstplacechampions p < length (heap w)"
      and d: "distinct (selectedChampions w)"
  proof -
    let ?w1 = "toggleChampionWin key w"
    from toggleChampionWin_selected_array [OF sel valid, of key]
    obtain q where first: "selectedChampions ?w1 = toggleChampion key (selectedChampions w)"
      and sel1: "selectedProfile (state ?w1) = Some q"
      and valid1: "firstplacechampions q < length (heap ?w1)"
      by blast
    from toggleChampionWin_selected_array [OF sel1 valid1, of key] first
    have "selectedChampions (toggleChampionWin key ?w1) =
        toggleChampion key (toggleChampion key (selectedChampions w))"
      by simp
    with toggleChampion_twice [OF d, of key] show ?thesis by simp
  qed
  from pure once twice show ?thesis by blast
qed


theorem toggleChampion_twice_restores_witness:
  "distinct [''Ahri'', ''Zed''] \<and>
   toggleChampion ''Zed'' [''Ahri'', ''Zed''] = [''Ahri''] \<and>
   set (toggleChampion ''Zed'' (toggleChampion ''Zed'' [''Ahri'', ''Zed''])) = {''Ahri'', ''Zed''} \<and>
   selectedProfile (state (mountEffect (worldWith [] []))) =
     Some \<lparr>id' = ''p'', Profile.name = ''Me'', firstplacechampions = 0, created_at = 12, updated_at = 12\<rparr> \<and>
   selectedChampions (toggleChampionWin ''Zed'' (mountEffect (worldWith [] []))) = [''Zed'']"
proof -
  let ?w = "mountEffect (worldWith [] [])"
  let ?p = "\<lparr>id' = ''p'', Profile.name = ''Me'', firstplacechampions = 0 :: nat, created_at = 12, updated_at = 12\<rparr>"
  have d: "distinct [''Ahri'', ''Zed'']" by simp
  have sel: "selectedProfile (state ?w) = Some ?p" by code_simp
  have len: "length (heap ?w) = 2" by code_simp
  have valid: "firstplacechampions ?p < length (heap ?w)" unfolding len by simp
  have before: "selectedChampions ?w = []" by code_simp
  note inst = toggleChampion_twice_restores [of "[''Ahri'', ''Zed'']" "''Zed''" ?w ?p]
  note pure = inst [THEN conjunct1, rule_format, OF d]
  have t1: "toggleChampion ''Zed'' [''Ahri'', ''Zed''] = [''Ahri'']"
    using pure [THEN conjunct1] by simp
  have t2: "set (toggleChampion ''Zed'' (toggleChampion ''Zed'' [''Ahri'', ''Zed''])) =
      {''Ahri'', ''Zed''}"
    using pure [THEN conjunct2, THEN conjunct2, THEN conjunct2] by simp
  have "selectedChampions (toggleChampionWin ''Zed'' ?w) =
      toggleChampion ''Zed'' (selectedChampions ?w)"
    by (rule inst [THEN conjunct2, THEN conjunct1, rule_format, OF conjI [OF sel valid]])
  then have t3: "selectedChampions (toggleChampionWin ''Zed'' ?w) = [''Zed'']"
    unfolding before by (simp add: toggleChampion_def)
  show ?thesis
    by (intro conjI d t1 t2 sel t3)
qed


subsection \<open>Handlers whose first request is answered with an error\<close>

lemma handleAddProfile_failed:
  "fault_at 0 (remote w) \<Longrightarrow>
   handleAddProfile w =
     (if trim (newProfileName (state w)) = [] then w else w\<lparr>remote := answered (remote w)\<rparr>)"
  by (simp add: handleAddProfile_def createProfile_eq)

lemma handleUpdateProfile_failed:
  "fault_at 0 (remote w) \<Longrightarrow> handleUpdateProfile p w = w\<lparr>remote := answered (remote w)\<rparr>"
proof -
  assume f: "fault_at 0 (remote w)"
  then have "updateProfile (serialize (heap w) p) (remote w) = (None, answered (remote w))"
    by (simp add: updateProfile_eq)
  then show ?thesis by (simp add: handleUpdateProfile_def)
qed

lemma handleDeleteProfile_guarded:
  "length (profiles (state w)) \<le> 1 \<Longrightarrow> handleDeleteProfile i w = w"
  by (simp add: handleDeleteProfile_def)

lemma handleDeleteProfile_failed:
  "fault_at 0 (remote w) \<Longrightarrow>
   handleDeleteProfile i w =
     (if length (profiles (state w)) \<le> 1 then w else w\<lparr>remote := answered (remote w)\<rparr>)"
  by (simp add: handleDeleteProfile_def deleteProfile_eq)

lemma handleDeleteProfile_deleted:
  assumes "1 < length (profiles (state w))" "\<not> fault_at 0 (remote w)"
  shows "handleDeleteProfile i w =
     w\<lparr>remote := (answered (answered (remote w)))
                    \<lparr>table := filter (\<lambda>row. id' row \<noteq> i) (table (remote w))\<rparr>,
       heap := fst (parseProfiles (heap w)
                 (if fault_at 1 (remote w) then []
                  else sort_key created_at (filter (\<lambda>row. id' row \<noteq> i) (table (remote w))))),
       state :=
         (if (case selectedProfile (state w) of None \<Rightarrow> False | Some sel \<Rightarrow> id' sel = i)
          then (state w)\<lparr>profiles := snd (parseProfiles (heap w)
                   (if fault_at 1 (remote w) then []
                    else sort_key created_at (filter (\<lambda>row. id' row \<noteq> i) (table (remote w))))),
                 selectedProfile := first_or_null (snd (parseProfiles (heap w)
                   (if fault_at 1 (remote w) then []
                    else sort_key created_at (filter (\<lambda>row. id' row \<noteq> i) (table (remote w))))))\<rparr>
          else (state w)\<lparr>profiles := snd (parseProfiles (heap w)
                   (if fault_at 1 (remote w) then []
                    else sort_key created_at (filter (\<lambda>row. id' row \<noteq> i) (table (remote w)))))\<rparr>)\<rparr>"
  using assms
  by (simp add: handleDeleteProfile_def deleteProfile_eq getProfiles_eq split_def Let_def)

lemma handleAddProfile_created:
  assumes "trim (newProfileName (state w)) \<noteq> []" "\<not> fault_at 0 (remote w)"
  shows "profiles (state (handleAddProfile w)) =
       snd (parseProfiles (fst (parseProfile (heap w)
              (profileData (key_of (nextKey (remote w))) (trim (newProfileName (state w))) []
                 (clock (remote w)))))
         (if fault_at 1 (remote w) then []
          else sort_key created_at
                 (table (remote w) @
                  [profileData (key_of (nextKey (remote w))) (trim (newProfileName (state w))) []
                     (clock (remote w))])))"
    and "table (remote (handleAddProfile w)) =
       table (remote w) @
       [profileData (key_of (nextKey (remote w))) (trim (newProfileName (state w))) []
          (clock (remote w))]"
    and "nextKey (remote (handleAddProfile w)) = Suc (nextKey (remote w))"
    and "faults (remote (handleAddProfile w)) = tl (tl (faults (remote w)))"
  using assms
  by (simp_all add: handleAddProfile_def createProfile_eq getProfiles_eq split_def)


lemma createProfile_null: "fst (createProfile nm r) = None \<longleftrightarrow> fault_at 0 r"
  by (simp add: createProfile_eq)

lemma deleteProfile_false: "fst (deleteProfile i r) = (\<not> fault_at 0 r)"
  by (simp add: deleteProfile_eq)

lemma updateProfile_missing_row:
  assumes "\<forall>row \<in> set (table r). id' row \<noteq> id' d"
  shows "fst (updateProfile d r) = None \<and> table (snd (updateProfile d r)) = table r"
proof (cases "fault_at 0 r")
  case True
  then show ?thesis by (simp add: updateProfile_eq)
next
  case False
  let ?f = "apply_update (id' d) (Profile.name d) (firstplacechampions d) (clock r)"
  from assms have same: "map ?f (table r) = table r"
    by (intro map_idI) (simp add: apply_update_def)
  from assms have none: "filter (\<lambda>row. id' row = id' d) (table r) = []"
    by (simp add: filter_empty_conv)
  from False have "fst (updateProfile d r) =
      (case filter (\<lambda>row. id' row = id' d) (map ?f (table r)) of [row] \<Rightarrow> Some row | _ \<Rightarrow> None)"
    by (simp only: updateProfile_eq if_False fst_conv)
  then have "fst (updateProfile d r) = None" unfolding same none by simp
  moreover from False have "table (snd (updateProfile d r)) = table r"
    by (simp only: updateProfile_table if_False same)
  ultimately show ?thesis by simp
qed

lemma handleUpdateProfile_null:
  assumes "fst (updateProfile (serialize (heap w) p) (remote w)) = None"
  shows "state (handleUpdateProfile p w) = state w \<and> heap (handleUpdateProfile p w) = heap w"
  by (simp add: handleUpdateProfile_rejected [OF assms])

lemma handleUpdateProfile_refetch_failed:
  assumes ok: "fst (updateProfile (serialize (heap w) p) (remote w)) \<noteq> None"
    and f: "fault_at 1 (remote w)"
  shows "profiles (state (handleUpdateProfile p w)) = []"
proof -
  from ok obtain u where u: "fst (updateProfile (serialize (heap w) p) (remote w)) = Some u"
    by blast
  from updateProfile_accepted_rows [OF u] have nf: "\<not> fault_at 0 (remote w)" by simp
  with f have "fault_at 0 (snd (updateProfile (serialize (heap w) p) (remote w)))"
    by (simp add: updateProfile_eq)
  then have "fst (getProfiles (snd (updateProfile (serialize (heap w) p) (remote w)))) = []"
    by (simp add: getProfiles_eq)
  then show ?thesis by (simp add: handleUpdateProfile_accepted [OF u])
qed

lemma processUpdate_fetch_failed:
  "fault_at 0 (remote w) \<Longrightarrow> profiles (state (processUpdate w)) = []"
  by (simp add: processUpdate_def getProfiles_eq subscriptionCallback_def initialState_def)

text \<open>
  Claim C4, amended. When a request is answered with an error, the data layer returns
  null for a create and an update, false for a delete and the empty collection for a
  fetch, and the table of the store is as before; an update whose id is the id of no
  stored row returns null as well and leaves the table as it is. Each of the three
  handlers sets no component state and allocates nothing when its own request (the
  create, the update or the delete) comes back as null or false, whatever the cause.
  Each of them, when its own request succeeded and the re-fetch that follows is answered
  with an error, stores the empty collection it received as the profile list; so does
  the subscription callback after a failed re-fetch.
\<close>

theorem failed_request_outcomes:
  "(fault_at 0 (remote w) \<longrightarrow>
      fst (createProfile nm (remote w)) = None \<and>
      fst (updateProfile d (remote w)) = None \<and>
      fst (deleteProfile i (remote w)) = False \<and>
      fst (getProfiles (remote w)) = [] \<and>
      table (snd (createProfile nm (remote w))) = table (remote w) \<and>
      table (snd (updateProfile d (remote w))) = table (remote w) \<and>
      table (snd (deleteProfile i (remote w))) = table (remote w) \<and>
      table (snd (getProfiles (remote w))) = table (remote w) \<and>
      state (handleAddProfile w) = state w \<and> heap (handleAddProfile w) = heap w \<and>
      table (remote (handleAddProfile w)) = table (remote w) \<and>
      state (handleUpdateProfile p w) = state w \<and> heap (handleUpdateProfile p w) = heap w \<and>
      table (remote (handleUpdateProfile p w)) = table (remote w) \<and>
      state (handleDeleteProfile i w) = state w \<and> heap (handleDeleteProfile i w) = heap w \<and>
      table (remote (handleDeleteProfile i w)) = table (remote w)) \<and>
   (1 < length (profiles (state w)) \<and> \<not> fault_at 0 (remote w) \<and> fault_at 1 (remote w) \<longrightarrow>
      profiles (state (handleDeleteProfile i w)) = []) \<and>
   (trim (newProfileName (state w)) \<noteq> [] \<and> \<not> fault_at 0 (remote w) \<and> fault_at 1 (remote w) \<longrightarrow>
      profiles (state (handleAddProfile w)) = []) \<and>
   (fst (updateProfile (serialize (heap w) p) (remote w)) \<noteq> None \<and> fault_at 1 (remote w) \<longrightarrow>
      profiles (state (handleUpdateProfile p w)) = []) \<and>
   (fault_at 0 (remote w) \<longrightarrow> profiles (state (processUpdate w)) = []) \<and>
   ((\<forall>row \<in> set (table (remote w)). id' row \<noteq> id' d) \<longrightarrow>
      fst (updateProfile d (remote w)) = None \<and>
      table (snd (updateProfile d (remote w))) = table (remote w)) \<and>
   (fst (createProfile (trim (newProfileName (state w))) (remote w)) = None \<longrightarrow>
      state (handleAddProfile w) = state w \<and> heap (handleAddProfile w) = heap w) \<and>
   (fst (updateProfile (serialize (heap w) p) (remote w)) = None \<longrightarrow>
      state (handleUpdateProfile p w) = state w \<and> heap (handleUpdateProfile p w) = heap w) \<and>
   (\<not> fst (deleteProfile i (remote w)) \<longrightarrow>
      state (handleDeleteProfile i w) = state w \<and> heap (handleDeleteProfile i w) = heap w)"
proof -
  have layer: "fst (createProfile nm (remote w)) = None \<and>
      fst (updateProfile d (remote w)) = None \<and>
      fst (deleteProfile i (remote w)) = False \<and>
      fst (getProfiles (remote w)) = [] \<and>
      table (snd (createProfile nm (remote w))) = table (remote w) \<and>
      table (snd (updateProfile d (remote w))) = table (remote w) \<and>
      table (snd (deleteProfile i (remote w))) = table (remote w) \<and>
      table (snd (getProfiles (remote w))) = table (remote w)"
    if "fault_at 0 (remote w)"
    using that by (simp add: createProfile_eq updateProfile_eq deleteProfile_eq getProfiles_eq)
  have handlers: "state (handleAddProfile w) = state w \<and> heap (handleAddProfile w) = heap w \<and>
      table (remote (handleAddProfile w)) = table (remote w) \<and>
      state (handleUpdateProfile p w) = state w \<and> heap (handleUpdateProfile p w) = heap w \<and>
      table (remote (handleUpdateProfile p w)) = table (remote w) \<and>
      state (handleDeleteProfile i w) = state w \<and> heap (handleDeleteProfile i w) = heap w \<and>
      table (remote (handleDeleteProfile i w)) = table (remote w)"
    if "fault_at 0 (remote w)"
    using that
    by (simp add: handleAddProfile_failed handleUpdateProfile_failed handleDeleteProfile_failed)
  have del: "profiles (state (handleDeleteProfile i w)) = []"
    if "1 < length (profiles (state w))" "\<not> fault_at 0 (remote w)" "fault_at 1 (remote w)"
    using that by (simp add: handleDeleteProfile_deleted)
  have add: "profiles (state (handleAddProfile w)) = []"
    if "trim (newProfileName (state w)) \<noteq> []" "\<not> fault_at 0 (remote w)" "fault_at 1 (remote w)"
    using that by (simp add: handleAddProfile_created(1))
  have upd: "profiles (state (handleUpdateProfile p w)) = []"
    if "fst (updateProfile (serialize (heap w) p) (remote w)) \<noteq> None" "fault_at 1 (remote w)"
    using that by (rule handleUpdateProfile_refetch_failed)
  have notified: "profiles (state (processUpdate w)) = []" if "fault_at 0 (remote w)"
    using that by (rule processUpdate_fetch_failed)
  have missing: "fst (updateProfile d (remote w)) = None \<and>
      table (snd (updateProfile d (remote w))) = table (remote w)"
    if "\<forall>row \<in> set (table (remote w)). id' row \<noteq> id' d"
    using that by (rule updateProfile_missing_row)
  have add_null: "state (handleAddProfile w) = state w \<and> heap (handleAddProfile w) = heap w"
    if "fst (createProfile (trim (newProfileName (state w))) (remote w)) = None"
  proof -
    from that have "fault_at 0 (remote w)" by (simp add: createProfile_null)
    then show ?thesis by (simp add: handleAddProfile_failed)
  qed
  have upd_null: "state (handleUpdateProfile p w) = state w \<and> heap (handleUpdateProfile p w) = heap w"
    if "fst (updateProfile (serialize (heap w) p) (remote w)) = None"
    using that by (rule handleUpdateProfile_null)
  have del_null: "state (handleDeleteProfile i w) = state w \<and> heap (handleDeleteProfile i w) = heap w"
    if "\<not> fst (deleteProfile i (remote w))"
  proof -
    from that have "fault_at 0 (remote w)" by (simp add: deleteProfile_false)
    then show ?thesis by (simp add: handleDeleteProfile_failed)
  qed
  have first: "fault_at 0 (remote w) \<longrightarrow>
      fst (createProfile nm (remote w)) = None \<and>
      fst (updateProfile d (remote w)) = None \<and>
      fst (deleteProfile i (remote w)) = False \<and>
      fst (getProfiles (remote w)) = [] \<and>
      table (snd (createProfile nm (remote w))) = table (remote w) \<and>
      table (snd (updateProfile d (remote w))) = table (remote w) \<and>
      table (snd (deleteProfile i (remote w))) = table (remote w) \<and>
      table (snd (getProfiles (remote w))) = table (remote w) \<and>
      state (handleAddProfile w) = state w \<and> heap (handleAddProfile w) = heap w \<and>
      table (remote (handleAddProfile w)) = table (remote w) \<and>
      state (handleUpdateProfile p w) = state w \<and> heap (handleUpdateProfile p w) = heap w \<and>
      table (remote (handleUpdateProfile p w)) = table (remote w) \<and>
      state (handleDeleteProfile i w) = state w \<and> heap (handleDeleteProfile i w) = heap w \<and>
      table (remote (handleDeleteProfile i w)) = table (remote w)"
    using layer handlers by blast
  show ?thesis
    apply (intro conjI)
            apply (rule first)
    using del add upd notified missing add_null upd_null del_null by blast+
qed

theorem failed_request_outcomes_witness:
  "fault_at 0 (remote (mountEffect (worldWith [] [False, False, False, False, True]))) \<and>
   state (handleDeleteProfile ''p'' (mountEffect (worldWith [] [False, False, False, False, True]))) =
     state (mountEffect (worldWith [] [False, False, False, False, True])) \<and>
   1 < length (profiles (state (mountEffect (worldWith [] [False, False, False, False, False, True])))) \<and>
   profiles (state (handleDeleteProfile ''p''
      (mountEffect (worldWith [] [False, False, False, False, False, True])))) = [] \<and>
   fst (updateProfile
      (serialize (heap (mountEffect (worldWith [] [False, False, False, False, False, True])))
         \<lparr>id' = ''p'', Profile.name = ''Me'', firstplacechampions = 0, created_at = 12,
          updated_at = 12\<rparr>)
      (remote (mountEffect (worldWith [] [False, False, False, False, False, True])))) \<noteq> None \<and>
   profiles (state (handleUpdateProfile
      \<lparr>id' = ''p'', Profile.name = ''Me'', firstplacechampions = 0, created_at = 12, updated_at = 12\<rparr>
      (mountEffect (worldWith [] [False, False, False, False, False, True])))) = []"
proof -
  let ?w = "mountEffect (worldWith [] [False, False, False, False, True])"
  let ?v = "mountEffect (worldWith [] [False, False, False, False, False, True])"
  let ?p = "\<lparr>id' = ''p'', Profile.name = ''Me'', firstplacechampions = 0 :: nat, created_at = 12,
          updated_at = 12\<rparr>"
  have f: "fault_at 0 (remote ?w)" by code_simp
  have g: "1 < length (profiles (state ?v))" "\<not> fault_at 0 (remote ?v)" "fault_at 1 (remote ?v)"
    by code_simp+
  have h: "fst (updateProfile (serialize (heap ?v) ?p) (remote ?v)) \<noteq> None" by code_simp
  note first = failed_request_outcomes [of ?w "''Bob''" "profileData ''p'' ''Me'' [] 0" "''p''" ?p,
      THEN conjunct1, rule_format, OF f]
  have a: "state (handleDeleteProfile ''p'' ?w) = state ?w"
    using first by (elim conjE)
  have b: "profiles (state (handleDeleteProfile ''p'' ?v)) = []"
    by (rule failed_request_outcomes [of ?v "''Bob''" "profileData ''p'' ''Me'' [] 0" "''p''" ?p,
      THEN conjunct2, THEN conjunct1, rule_format, OF conjI [OF g(1) conjI [OF g(2) g(3)]]])
  have c: "profiles (state (handleUpdateProfile ?p ?v)) = []"
    by (rule failed_request_outcomes [of ?v "''Bob''" "profileData ''p'' ''Me'' [] 0" "''p''" ?p,
      THEN conjunct2, THEN conjunct2, THEN conjunct2, THEN conjunct1, rule_format,
      OF conjI [OF h g(3)]])
  show ?thesis by (intro conjI f a g(1) b h c)
qed

text \<open>
  Claim C4, as stated, fails. After a toggle whose update request fails, the selected
  profile's completed list in memory holds the toggled key. After a delete whose
  re-fetch fails, the profile list in memory is empty.
\<close>

theorem failed_request_counterexample:
  "selectedChampions (mountEffect (worldWith [] [False, False, False, False, True])) = [] \<and>
   fault_at 0 (remote (mountEffect (worldWith [] [False, False, False, False, True]))) \<and>
   selectedChampions (toggleChampionWin ''Zed''
     (mountEffect (worldWith [] [False, False, False, False, True]))) = [''Zed''] \<and>
   map Profile.name (profiles (state (mountEffect
     (worldWith [] [False, False, False, False, False, True])))) = [''Me'', ''My Friend''] \<and>
   fault_at 1 (remote (mountEffect (worldWith [] [False, False, False, False, False, True]))) \<and>
   profiles (state (handleDeleteProfile ''p''
     (mountEffect (worldWith [] [False, False, False, False, False, True])))) = []"
  by code_simp


subsection \<open>No handler touches the local storage\<close>

lemma window_loadProfiles: "window (loadProfiles w) = window w"
  by (simp add: loadProfiles_def split_def Let_def)

lemma window_mountEffect: "window (mountEffect w) = window w"
  by (simp add: mountEffect_def split_def window_loadProfiles)

lemma window_processUpdate: "window (processUpdate w) = window w"
  by (simp add: processUpdate_def split_def)

lemma window_handleAddProfile: "window (handleAddProfile w) = window w"
  by (simp add: handleAddProfile_def split_def split: option.splits)

lemma window_handleUpdateProfile: "window (handleUpdateProfile p w) = window w"
  by (simp add: handleUpdateProfile_def split_def Let_def split: option.splits)

lemma window_handleDeleteProfile: "window (handleDeleteProfile i w) = window w"
  by (simp add: handleDeleteProfile_def split_def Let_def split: bool.splits)

lemma window_toggleChampionWin: "window (toggleChampionWin c w) = window w"
  by (simp add: toggleChampionWin_def Let_def window_handleUpdateProfile split: option.splits)

lemma window_step: "window (step a w) = window w"
  by (cases a)
    (simp_all add: window_loadProfiles window_handleAddProfile window_handleUpdateProfile
      window_handleDeleteProfile window_toggleChampionWin window_processUpdate
      typeProfileName_def selectProfile_def saveEditing_def typeEditedName_def startEditing_def
      split: option.splits)

lemma window_run: "window (run as w) = window w"
  by (induction as arbitrary: w) (simp_all add: window_step)

lemma mountEffect_failed:
  "fault_at 0 (remote w) \<Longrightarrow>
   mountEffect w =
     w\<lparr>remote := answered (remote w),
       state := (state w)\<lparr>connectionStatus := ''Connection failed'', loading := False\<rparr>\<rparr>"
  by (simp add: mountEffect_def testConnection_failed request_fails_fault_at)

text \<open>
  Claim C9, amended. When the connection test fails, the mount effect sets the status
  to "Connection failed", ends loading and does nothing else: no profile is loaded.
  Neither the mount effect nor any later operation of the component reads or writes the
  local storage. The storage module by itself keeps the profile collection as one JSON
  text under the fixed key "arena-god-profiles" and reads back what was written.
\<close>

theorem connection_failure_without_fallback:
  "(fault_at 0 (remote w) \<longrightarrow>
      mountEffect w =
        w\<lparr>remote := answered (remote w),
          state := (state w)\<lparr>connectionStatus := ''Connection failed'', loading := False\<rparr>\<rparr>) \<and>
   window (mountEffect w) = window w \<and>
   window (run actions (mountEffect w)) = window w \<and>
   storage_getProfiles (storage_setProfiles ps (Some ls)) = ps \<and>
   the (storage_setProfiles ps (Some ls)) ''arena-god-profiles'' = Some (JSON_stringify ps)"
proof -
  have "the (storage_setProfiles ps (Some ls)) ''arena-god-profiles'' = Some (JSON_stringify ps)"
    by (simp add: storage_setProfiles_def STORAGE_KEYS_PROFILES_def)
  then show ?thesis
    by (simp add: mountEffect_failed window_mountEffect window_run storage_get_set)
qed

theorem connection_failure_without_fallback_witness:
  "fault_at 0 (remote (worldWith [] [True])) \<and>
   connectionStatus (state (mountEffect (worldWith [] [True]))) = ''Connection failed'' \<and>
   profiles (state (mountEffect (worldWith [] [True]))) = []"
proof -
  have f: "fault_at 0 (remote (worldWith [] [True]))" by code_simp
  have eq: "mountEffect (worldWith [] [True]) =
      (worldWith [] [True])\<lparr>remote := answered (remote (worldWith [] [True])),
        state := (state (worldWith [] [True]))
          \<lparr>connectionStatus := ''Connection failed'', loading := False\<rparr>\<rparr>"
    by (rule connection_failure_without_fallback [of "worldWith [] [True]" "[]" "[]" Map.empty,
        THEN conjunct1, rule_format, OF f])
  have a: "connectionStatus (state (mountEffect (worldWith [] [True]))) = ''Connection failed''"
    unfolding eq by simp
  have b: "profiles (state (mountEffect (worldWith [] [True]))) = []"
    unfolding eq by (simp add: worldWith_def initialState_def)
  show ?thesis by (intro conjI f a b)
qed

text \<open>
  Claim C9, as stated, fails: with a profile in the local storage and a store that does
  not answer, the component shows no profile after the failed connection test, and a
  profile added afterwards is not written to the local storage.
\<close>

theorem local_fallback_unused_counterexample:
  "storage_getProfiles (window ((worldWith [] [True, True])
      \<lparr>window := Some [STORAGE_KEYS_PROFILES \<mapsto> JSON [profileData ''1'' ''Local'' [''Zed''] 1]]\<rparr>)) =
     [profileData ''1'' ''Local'' [''Zed''] 1] \<and>
   profiles (state (mountEffect ((worldWith [] [True, True])
      \<lparr>window := Some [STORAGE_KEYS_PROFILES \<mapsto> JSON [profileData ''1'' ''Local'' [''Zed''] 1]]\<rparr>))) = [] \<and>
   connectionStatus (state (mountEffect ((worldWith [] [True, True])
      \<lparr>window := Some [STORAGE_KEYS_PROFILES \<mapsto> JSON [profileData ''1'' ''Local'' [''Zed''] 1]]\<rparr>))) =
     ''Connection failed'' \<and>
   profiles (state (run [Add ''Bob''] (mountEffect ((worldWith [] [True, True])
      \<lparr>window := Some [STORAGE_KEYS_PROFILES \<mapsto> JSON [profileData ''1'' ''Local'' [''Zed''] 1]]\<rparr>)))) = [] \<and>
   storage_getProfiles (window (run [Add ''Bob''] (mountEffect ((worldWith [] [True, True])
      \<lparr>window := Some [STORAGE_KEYS_PROFILES \<mapsto> JSON [profileData ''1'' ''Local'' [''Zed''] 1]]\<rparr>)))) =
     [profileData ''1'' ''Local'' [''Zed''] 1]"
  by code_simp


subsection \<open>A delete that starts in step with the store\<close>

lemma key_of_inject: "key_of m = key_of n \<longleftrightarrow> m = n"
proof
  assume "key_of m = key_of n"
  then have "length (key_of m) = length (key_of n)" by simp
  then show "m = n" by (simp add: key_of_def)
qed simp

lemma in_sync_shown: "in_sync w \<Longrightarrow> profiles (state w) \<noteq> [] \<and> table (remote w) \<noteq> []"
proof -
  assume s: "in_sync w"
  then have "length (profiles (state w)) = length (table (remote w))"
    unfolding in_sync_def by (metis length_map length_sort)
  with s show ?thesis by (auto simp: in_sync_def)
qed

lemma in_sync_lengths: "in_sync w \<Longrightarrow> length (profiles (state w)) = length (table (remote w))"
  unfolding in_sync_def by (metis length_map length_sort)

lemma distinct_ids_remaining:
  assumes "distinct (map id' rows)" "1 < length rows"
  shows "filter (\<lambda>row. id' row \<noteq> i) rows \<noteq> []"
proof
  assume "filter (\<lambda>row. id' row \<noteq> i) rows = []"
  then have all: "\<forall>row \<in> set rows. id' row = i" by (simp add: filter_empty_conv)
  from assms(2) obtain a b rest where rows: "rows = a # b # rest"
    by (cases rows; cases "tl rows") auto
  with all have "id' a = id' b" by simp
  with assms(1) rows show False by simp
qed

lemma in_sync_handleDeleteProfile: "in_sync w \<Longrightarrow> in_sync (handleDeleteProfile i w)"
proof (cases "length (profiles (state w)) \<le> 1")
  case True
  then show "in_sync w \<Longrightarrow> in_sync (handleDeleteProfile i w)"
    by (simp add: handleDeleteProfile_guarded)
next
  case False
  assume s: "in_sync w"
  let ?r = "remote w"
  let ?rows = "filter (\<lambda>row. id' row \<noteq> i) (table ?r)"
  from False have many: "1 < length (profiles (state w))" by simp
  from s have nf: "\<not> fault_at 0 ?r" "\<not> fault_at 1 ?r" by (simp_all add: in_sync_def)
  note deleted = handleDeleteProfile_deleted [OF many nf(1), of i]
  from nf(2) have shown: "profiles (state (handleDeleteProfile i w)) =
      snd (parseProfiles (heap w) (sort_key created_at ?rows))"
    by (simp add: deleted)
  have rem: "remote (handleDeleteProfile i w) = (answered (answered ?r))\<lparr>table := ?rows\<rparr>"
    by (simp add: deleted)
  from s have dist: "distinct (map id' (table ?r))"
    and fresh: "\<forall>row \<in> set (table ?r). \<forall>n \<ge> nextKey ?r. id' row \<noteq> key_of n"
    and fl: "faults ?r = []"
    by (simp_all add: in_sync_def)
  from many in_sync_lengths [OF s] have "1 < length (table ?r)" by simp
  from distinct_ids_remaining [OF dist this] have left: "?rows \<noteq> []" .
  from dist have dist': "distinct (map id' ?rows)" by (rule distinct_map_filter)
  from fresh have fresh': "\<forall>row \<in> set ?rows. \<forall>n \<ge> nextKey ?r. id' row \<noteq> key_of n" by simp
  from fl left dist' fresh' show "in_sync (handleDeleteProfile i w)"
    unfolding in_sync_def by (simp add: shown rem parseProfiles_ids)
qed

text \<open>
  Claim C7, amended. A delete while the list of the render that made the handler has at
  most one profile changes nothing and sends no request. When that list has more than
  one profile and the delete and the re-fetch succeed, the rows with the id leave the
  table, the session shows the re-fetched collection, and the first shown profile
  becomes selected if the selected one had the deleted id. A delete that starts in
  step with the store (the list shows the rows of the table, no request fails) and
  runs with nothing else changing the store or the list meanwhile ends in step with
  the store, with at least one profile in the list and in the table.
\<close>

theorem delete_guard_and_selection:
  "(length (profiles (state w)) \<le> 1 \<longrightarrow> handleDeleteProfile i w = w) \<and>
   (1 < length (profiles (state w)) \<and> \<not> fault_at 0 (remote w) \<and> \<not> fault_at 1 (remote w) \<longrightarrow>
      (let w' = handleDeleteProfile i w in
         table (remote w') = filter (\<lambda>row. id' row \<noteq> i) (table (remote w)) \<and>
         map (serialize (heap w')) (profiles (state w')) = sort_key created_at (table (remote w')) \<and>
         selectedProfile (state w') =
           (if (case selectedProfile (state w) of None \<Rightarrow> False | Some sel \<Rightarrow> id' sel = i)
            then first_or_null (profiles (state w'))
            else selectedProfile (state w)))) \<and>
   (in_sync w \<longrightarrow>
      in_sync (handleDeleteProfile i w) \<and> profiles (state (handleDeleteProfile i w)) \<noteq> [] \<and>
      table (remote (handleDeleteProfile i w)) \<noteq> [])"
proof -
  have guard: "handleDeleteProfile i w = w" if "length (profiles (state w)) \<le> 1"
    using that by (rule handleDeleteProfile_guarded)
  have removal:
    "table (remote (handleDeleteProfile i w)) = filter (\<lambda>row. id' row \<noteq> i) (table (remote w)) \<and>
     map (serialize (heap (handleDeleteProfile i w))) (profiles (state (handleDeleteProfile i w))) =
       sort_key created_at (table (remote (handleDeleteProfile i w))) \<and>
     selectedProfile (state (handleDeleteProfile i w)) =
       (if (case selectedProfile (state w) of None \<Rightarrow> False | Some sel \<Rightarrow> id' sel = i)
        then first_or_null (profiles (state (handleDeleteProfile i w)))
        else selectedProfile (state w))"
    if many: "1 < length (profiles (state w))"
      and nf: "\<not> fault_at 0 (remote w)" "\<not> fault_at 1 (remote w)"
  proof -
    let ?rows = "sort_key created_at (filter (\<lambda>row. id' row \<noteq> i) (table (remote w)))"
    have ser: "map (serialize (fst (parseProfiles (heap w) ?rows)))
        (snd (parseProfiles (heap w) ?rows)) = ?rows"
      using parseProfiles_serialize [of "heap w" ?rows "[]"] by simp
    from nf(2) ser show ?thesis
      by (simp add: handleDeleteProfile_deleted [OF many nf(1)])
  qed
  have kept: "in_sync (handleDeleteProfile i w) \<and> profiles (state (handleDeleteProfile i w)) \<noteq> [] \<and>
      table (remote (handleDeleteProfile i w)) \<noteq> []"
    if "in_sync w"
    using in_sync_handleDeleteProfile [OF that, of i]
      in_sync_shown [of "handleDeleteProfile i w"] by simp
  from guard removal kept show ?thesis unfolding Let_def by blast
qed

theorem delete_guard_and_selection_witness:
  "in_sync (mountEffect (worldWith [] [])) \<and>
   profiles (state (handleDeleteProfile ''p'' (mountEffect (worldWith [] [])))) \<noteq> [] \<and>
   length (profiles (state (handleDeleteProfile ''p'' (mountEffect (worldWith [] []))))) \<le> 1 \<and>
   handleDeleteProfile ''pi'' (handleDeleteProfile ''p'' (mountEffect (worldWith [] []))) =
     handleDeleteProfile ''p'' (mountEffect (worldWith [] [])) \<and>
   map_option id' (selectedProfile (state (mountEffect (worldWith [] [])))) = Some ''p'' \<and>
   map_option id' (selectedProfile (state (handleDeleteProfile ''p''
     (mountEffect (worldWith [] []))))) = Some ''pi''"
proof -
  let ?w = "mountEffect (worldWith [] [])"
  have fl: "faults (remote ?w) = []" by code_simp
  have ids: "map id' (profiles (state ?w)) = map id' (sort_key created_at (table (remote ?w)))"
    by code_simp
  have tids: "map id' (table (remote ?w)) = [key_of 0, key_of 1]" by code_simp
  have nk: "nextKey (remote ?w) = 2" by code_simp
  have ne: "table (remote ?w) \<noteq> []" by code_simp
  from tids have dist: "distinct (map id' (table (remote ?w)))"
    by (simp add: key_of_inject)
  from tids have "id' ` set (table (remote ?w)) = {key_of 0, key_of 1}"
    by (metis list.set_map list.simps(15) empty_set)
  then have fresh: "\<forall>row \<in> set (table (remote ?w)). \<forall>n \<ge> nextKey (remote ?w). id' row \<noteq> key_of n"
    unfolding nk
  proof (intro ballI allI impI)
    fix row n
    assume im: "id' ` set (table (remote ?w)) = {key_of 0, key_of 1}"
      and row: "row \<in> set (table (remote ?w))" and n: "2 \<le> (n::nat)"
    from row have "id' row \<in> id' ` set (table (remote ?w))" by (rule imageI)
    with im have "id' row = key_of 0 \<or> id' row = key_of 1" by simp
    with n show "id' row \<noteq> key_of n" by (auto simp: key_of_inject)
  qed
  from fl ids dist fresh ne have sync: "in_sync ?w" unfolding in_sync_def by blast
  have one: "length (profiles (state (handleDeleteProfile ''p'' ?w))) \<le> 1" by code_simp
  note inst = delete_guard_and_selection
  have a: "profiles (state (handleDeleteProfile ''p'' ?w)) \<noteq> []"
    using inst [of ?w "''p''", THEN conjunct2, THEN conjunct2, rule_format, OF sync]
    by (elim conjE)
  have b: "handleDeleteProfile ''pi'' (handleDeleteProfile ''p'' ?w) = handleDeleteProfile ''p'' ?w"
    by (rule inst [of "handleDeleteProfile ''p'' ?w" "''pi''", THEN conjunct1, rule_format, OF one])
  have c: "map_option id' (selectedProfile (state ?w)) = Some ''p''" by code_simp
  have d: "map_option id' (selectedProfile (state (handleDeleteProfile ''p'' ?w))) = Some ''pi''"
    by code_simp
  show ?thesis by (intro conjI sync a one b c d)
qed

text \<open>
  Claim C7, as stated, fails: the guard reads the list of the render that made the
  handler. Two sessions load the same two profiles; the first deletes one of them, and
  the second, whose list still has two entries, deletes the other. Within one session
  the same happens when a second delete is confirmed while the first waits for the
  answer to its delete request: the list still has two entries. No request fails, and
  no profile is left in the store or in the list.
\<close>

theorem delete_two_sessions_counterexample:
  "(let a0 = mountEffect (worldWith [] []);
        b0 = mountEffect ((worldWith [] [])\<lparr>remote := remote a0\<rparr>);
        a1 = handleDeleteProfile ''p'' (a0\<lparr>remote := remote b0\<rparr>);
        b1 = handleDeleteProfile ''pi'' (selectProfile 1 (b0\<lparr>remote := remote a1\<rparr>));
        c0 = selectProfile 1 a0;
        c1 = handleDeleteProfile ''pi'' (c0\<lparr>remote := snd (deleteProfile ''p'' (remote a0))\<rparr>)
    in map id' (profiles (state a0)) = [''p'', ''pi''] \<and>
       map id' (profiles (state b0)) = [''p'', ''pi''] \<and>
       map id' (table (remote a1)) = [''pi''] \<and>
       map id' (profiles (state a1)) = [''pi''] \<and>
       table (remote b1) = [] \<and>
       profiles (state b1) = [] \<and>
       selectedProfile (state b1) = None \<and>
       map id' (profiles (state c0)) = [''p'', ''pi''] \<and>
       map id' (table (snd (deleteProfile ''p'' (remote a0)))) = [''pi''] \<and>
       table (remote c1) = [] \<and>
       profiles (state c1) = [] \<and>
       selectedProfile (state c1) = None)"
  by code_simp

end
